theory Spec2Isabelle
  imports Complex_Main
begin

section \<open>Python exceptions as values\<close>

text \<open>
  Every exception that the modelled functions can raise, or that a library call can raise
  into them, is a constructor of one type. A function that may raise returns
  \<open>error + 'a\<close>, with \<open>Inl\<close> for the exception.
\<close>

datatype error =
    ValueError | ZeroDivisionError | TypeError | IndexError | KeyError
  | UnboundLocalError | FileNotFoundError | RasterioIOError

section \<open>numpy float64 values\<close>

text \<open>
  A numpy float is a finite number, an infinity or not-a-number. Division by zero does not
  raise in numpy: it yields an infinity or \<open>NaN\<close> (with a warning). The finite part is
  modelled by \<open>real\<close>: rounding, overflow and the sign of zero are abstracted away. A zero
  divisor arises in the modelled code only from a sum or a difference, which IEEE 754
  rounds to \<open>+0.0\<close>, so a zero divisor is taken as positive.
\<close>

datatype fval = Fin real | PInf | NInf | NaN

fun fneg :: "fval \<Rightarrow> fval" where
  "fneg (Fin a) = Fin (- a)"
| "fneg PInf = NInf"
| "fneg NInf = PInf"
| "fneg NaN = NaN"

fun fadd :: "fval \<Rightarrow> fval \<Rightarrow> fval" where
  "fadd NaN _ = NaN"
| "fadd _ NaN = NaN"
| "fadd (Fin a) (Fin b) = Fin (a + b)"
| "fadd PInf NInf = NaN"
| "fadd NInf PInf = NaN"
| "fadd PInf _ = PInf"
| "fadd _ PInf = PInf"
| "fadd NInf _ = NInf"
| "fadd _ NInf = NInf"

definition fsub :: "fval \<Rightarrow> fval \<Rightarrow> fval" where
  "fsub a b = fadd a (fneg b)"

fun fdiv :: "fval \<Rightarrow> fval \<Rightarrow> fval" where
  "fdiv NaN _ = NaN"
| "fdiv _ NaN = NaN"
| "fdiv (Fin a) (Fin b) =
     (if b = 0 then (if a = 0 then NaN else if 0 < a then PInf else NInf)
      else Fin (a / b))"
| "fdiv (Fin a) _ = Fin 0"
| "fdiv PInf (Fin b) = (if 0 \<le> b then PInf else NInf)"
| "fdiv NInf (Fin b) = (if 0 \<le> b then NInf else PInf)"
| "fdiv _ _ = NaN"

fun fle :: "fval \<Rightarrow> fval \<Rightarrow> bool" where
  "fle NaN _ = False"
| "fle _ NaN = False"
| "fle NInf _ = True"
| "fle _ PInf = True"
| "fle (Fin a) (Fin b) = (a \<le> b)"
| "fle _ _ = False"

definition fmin :: "fval \<Rightarrow> fval \<Rightarrow> fval" where
  "fmin a b = (if a = NaN \<or> b = NaN then NaN else if fle a b then a else b)"

definition fmax :: "fval \<Rightarrow> fval \<Rightarrow> fval" where
  "fmax a b = (if a = NaN \<or> b = NaN then NaN else if fle a b then b else a)"

section \<open>Arrays\<close>

text \<open>A 2D numpy array is a list of rows; a 3D array (band, row, col) is a list of those.\<close>

type_synonym grid = "fval list list"

definition nrows :: "grid \<Rightarrow> nat" where
  "nrows g = length g"

definition ncols :: "grid \<Rightarrow> nat" where
  "ncols g = (case g of [] \<Rightarrow> 0 | row # _ \<Rightarrow> length row)"

definition shape :: "grid \<Rightarrow> nat \<times> nat" where
  "shape g = (nrows g, ncols g)"

definition is_array :: "nat \<Rightarrow> nat \<Rightarrow> grid \<Rightarrow> bool" where
  "is_array h w g = (length g = h \<and> list_all (\<lambda>row. length row = w) g)"

text \<open>\<open>np.min\<close> and \<open>np.max\<close> over all elements: they raise on an empty array and
  propagate \<open>NaN\<close>.\<close>

definition np_min :: "grid \<Rightarrow> error + fval" where
  "np_min g = (case concat g of [] \<Rightarrow> Inl ValueError | x # xs \<Rightarrow> Inr (foldl fmin x xs))"

definition np_max :: "grid \<Rightarrow> error + fval" where
  "np_max g = (case concat g of [] \<Rightarrow> Inl ValueError | x # xs \<Rightarrow> Inr (foldl fmax x xs))"

text \<open>\<open>np.nanmin\<close> and \<open>np.nanmax\<close> ignore \<open>NaN\<close>; on an array with no other value
  the result is \<open>NaN\<close> (with a warning), on an empty array they raise.\<close>

definition np_nanmin :: "grid \<Rightarrow> error + fval" where
  "np_nanmin g =
     (case concat g of [] \<Rightarrow> Inl ValueError
      | _ # _ \<Rightarrow> (case filter (\<lambda>x. x \<noteq> NaN) (concat g) of [] \<Rightarrow> Inr NaN
                   | x # xs \<Rightarrow> Inr (foldl fmin x xs)))"

definition np_nanmax :: "grid \<Rightarrow> error + fval" where
  "np_nanmax g =
     (case concat g of [] \<Rightarrow> Inl ValueError
      | _ # _ \<Rightarrow> (case filter (\<lambda>x. x \<noteq> NaN) (concat g) of [] \<Rightarrow> Inr NaN
                   | x # xs \<Rightarrow> Inr (foldl fmax x xs)))"

text \<open>An array combined with a scalar, elementwise.\<close>

definition np_scalar :: "(fval \<Rightarrow> fval) \<Rightarrow> grid \<Rightarrow> grid" where
  "np_scalar f g = map (map f) g"

text \<open>
  Two arrays combined elementwise, with numpy's broadcasting of 2D shapes: a dimension of
  the two operands must be equal, or one of them is 1 and is repeated; anything else raises
  \<open>ValueError\<close>.
\<close>

definition bdim :: "nat \<Rightarrow> nat \<Rightarrow> nat option" where
  "bdim m n = (if m = n then Some m else if m = 1 then Some n else if n = 1 then Some m else None)"

definition item :: "grid \<Rightarrow> nat \<Rightarrow> nat \<Rightarrow> fval" where
  "item g r c = g ! (if nrows g = 1 then 0 else r) ! (if ncols g = 1 then 0 else c)"

definition np_binop :: "(fval \<Rightarrow> fval \<Rightarrow> fval) \<Rightarrow> grid \<Rightarrow> grid \<Rightarrow> error + grid" where
  "np_binop f a b =
     (case bdim (nrows a) (nrows b) of None \<Rightarrow> Inl ValueError
      | Some h \<Rightarrow> (case bdim (ncols a) (ncols b) of None \<Rightarrow> Inl ValueError
          | Some w \<Rightarrow> Inr (map (\<lambda>r. map (\<lambda>c. f (item a r c) (item b r c)) [0..<w]) [0..<h])))"

section \<open>Raster files\<close>

text \<open>
  The dictionary \<open>src.meta\<close> (and \<open>src.profile\<close>) of rasterio is a record of the keys the
  code reads or updates. A dataset opened for reading has its metadata, its bounds and the
  data of its bands, band 1 first. A dataset opened for writing starts with no band
  written: a band holds \<open>None\<close> until \<open>write\<close> stores an array in it.
\<close>

record rio_meta =
  count :: nat
  height :: nat
  width :: nat
  dtype :: string
  crs :: string
  transform :: "real list"

record dataset =
  ds_meta :: rio_meta
  ds_bounds :: "real \<times> real \<times> real \<times> real"
  ds_bands :: "grid list"

record out_dataset =
  o_meta :: rio_meta
  o_bands :: "grid option list"

type_synonym filesystem = "string \<rightharpoonup> dataset"

definition rio_open :: "filesystem \<Rightarrow> string \<Rightarrow> error + dataset" where
  "rio_open fs path = (case fs path of None \<Rightarrow> Inl RasterioIOError | Some src \<Rightarrow> Inr src)"

text \<open>\<open>src.read(k)\<close>: bands are numbered from 1; a band that does not exist raises.\<close>

definition read_band :: "dataset \<Rightarrow> nat \<Rightarrow> error + grid" where
  "read_band src k =
     (if 1 \<le> k \<and> k \<le> length (ds_bands src) then Inr (ds_bands src ! (k - 1))
      else Inl IndexError)"

text \<open>
  \<open>dst.write(layer, idx)\<close> belongs to the raster library. It is a parameter of the
  model: given the metadata of the dataset, the band index and the array, it returns the
  array as the band stores it, or raises.
\<close>

type_synonym writer = "rio_meta \<Rightarrow> nat \<Rightarrow> grid \<Rightarrow> error + grid"

text \<open>
  The write casts the array to the dtype of the dataset before it stores it. A value is
  unchanged by that cast when the dtype can hold it: any value for a float dtype (rounding
  is abstracted away), a whole number within the range for an integer dtype.
\<close>

definition is_float_dtype :: "string \<Rightarrow> bool" where
  "is_float_dtype d = (d \<in> set [''float32'', ''float64''])"

definition int_range :: "string \<Rightarrow> (int \<times> int) option" where
  "int_range d =
     map_of [(''uint8'', (0, 255)), (''int8'', (-128, 127)),
             (''uint16'', (0, 65535)), (''int16'', (-32768, 32767)),
             (''uint32'', (0, 4294967295)), (''int32'', (-2147483648, 2147483647))] d"

definition representable :: "string \<Rightarrow> fval \<Rightarrow> bool" where
  "representable d v =
     (if is_float_dtype d then True
      else (case int_range d of None \<Rightarrow> False
            | Some (lo, hi) \<Rightarrow>
                (case v of Fin x \<Rightarrow> x = of_int \<lfloor>x\<rfloor> \<and> of_int lo \<le> x \<and> x \<le> of_int hi
                 | _ \<Rightarrow> False)))"

definition values_fit :: "string \<Rightarrow> grid \<Rightarrow> bool" where
  "values_fit d g = list_all (list_all (representable d)) g"

text \<open>
  The property of a writer that the theorems below rely on: an array that has the shape of
  the dataset and values that the dtype of the dataset can hold, written to a band that
  exists, is stored as it is.
\<close>

definition stores_shaped :: "writer \<Rightarrow> bool" where
  "stores_shaped wr =
     (\<forall>m idx g. 1 \<le> idx \<and> idx \<le> count m \<and> is_array (height m) (width m) g
          \<and> values_fit (dtype m) g
        \<longrightarrow> wr m idx g = Inr g)"

text \<open>
  One writer, used where a concrete one is needed: it scales the array to the size of the
  dataset by nearest neighbour, in the manner of GDAL's RasterIO, and raises on a band index
  out of range or when an array without pixels is to fill a dataset that has some.
\<close>

definition scale_to :: "nat \<times> nat \<Rightarrow> grid \<Rightarrow> grid" where
  "scale_to target g =
     (case target of (h, w) \<Rightarrow>
        map (\<lambda>r. map (\<lambda>c. g ! (r * nrows g div h) ! (c * ncols g div w)) [0..<w]) [0..<h])"

definition scaling_write :: writer where
  "scaling_write m idx g =
     (if idx < 1 \<or> count m < idx then Inl IndexError
      else if (nrows g = 0 \<or> ncols g = 0) \<and> 0 < height m \<and> 0 < width m
        then Inl RasterioIOError
      else Inr (scale_to (height m, width m) g))"

text \<open>
  A second writer, which casts as well: to an integer dtype a number is cut towards zero
  and wraps around the range, as numpy's \<open>astype\<close> shows it (the conversion of a value out
  of range is not defined by C; \<open>NaN\<close> and the infinities are taken to 0), and then the
  array is scaled as above.
\<close>

fun toward_zero :: "fval \<Rightarrow> int" where
  "toward_zero (Fin x) = (if 0 \<le> x then \<lfloor>x\<rfloor> else \<lceil>x\<rceil>)"
| "toward_zero v = 0"

definition cast :: "string \<Rightarrow> fval \<Rightarrow> fval" where
  "cast d v =
     (if is_float_dtype d then v
      else (case int_range d of None \<Rightarrow> v
            | Some (lo, hi) \<Rightarrow> Fin (of_int (lo + (toward_zero v - lo) mod (hi - lo + 1)))))"

definition casting_write :: writer where
  "casting_write m idx g =
     (if idx < 1 \<or> count m < idx then Inl IndexError
      else if (nrows g = 0 \<or> ncols g = 0) \<and> 0 < height m \<and> 0 < width m
        then Inl RasterioIOError
      else Inr (scale_to (height m, width m) (map (map (cast (dtype m))) g)))"

section \<open>Fusion: \<open>fusion.py\<close>\<close>

text \<open>
  \<open>stack_rasters\<close>: the first loop opens each input file, takes the metadata of the first
  one with \<open>count\<close> set to the number of input files, and appends band 1 of every file to
  \<open>layers\<close>. The second loop writes layer \<open>idx\<close> to band \<open>idx\<close> of the output. With no input
  file \<open>meta\<close> is still \<open>None\<close> and opening the output raises \<open>TypeError\<close>.
\<close>

fun read_layers ::
  "filesystem \<Rightarrow> nat \<Rightarrow> string list \<Rightarrow> rio_meta option \<Rightarrow> grid list
     \<Rightarrow> error + (rio_meta option \<times> grid list)" where
  "read_layers fs n [] meta layers = Inr (meta, layers)"
| "read_layers fs n (file # files) meta layers =
     (case rio_open fs file of Inl e \<Rightarrow> Inl e
      | Inr src \<Rightarrow>
          (let meta' = (case meta of None \<Rightarrow> Some ((ds_meta src)\<lparr>count := n\<rparr>)
                        | Some m \<Rightarrow> Some m)
           in case read_band src 1 of Inl e \<Rightarrow> Inl e
              | Inr layer \<Rightarrow> read_layers fs n files meta' (layers @ [layer])))"

fun write_layers ::
  "writer \<Rightarrow> rio_meta \<Rightarrow> nat \<Rightarrow> grid list \<Rightarrow> grid option list
     \<Rightarrow> error + grid option list" where
  "write_layers wr m idx [] bs = Inr bs"
| "write_layers wr m idx (layer # layers) bs =
     (case wr m idx layer of Inl e \<Rightarrow> Inl e
      | Inr stored \<Rightarrow> write_layers wr m (idx + 1) layers (bs[idx - 1 := Some stored]))"

definition stack_rasters :: "writer \<Rightarrow> filesystem \<Rightarrow> string list \<Rightarrow> error + out_dataset" where
  "stack_rasters wr fs input_files =
     (case read_layers fs (length input_files) input_files None [] of Inl e \<Rightarrow> Inl e
      | Inr (meta, layers) \<Rightarrow>
          (case meta of None \<Rightarrow> Inl TypeError
           | Some m \<Rightarrow>
               (case write_layers wr m 1 layers (replicate (count m) None) of Inl e \<Rightarrow> Inl e
                | Inr bs \<Rightarrow> Inr \<lparr>o_meta = m, o_bands = bs\<rparr>)))"

text \<open>
  \<open>normalize_raster\<close>: reads band 1 as float, takes \<open>np.min\<close> and \<open>np.max\<close> of that array,
  and writes \<open>(data - data_min) / (data_max - data_min)\<close> to band 1 of an output whose
  profile is the input's with \<open>dtype\<close> float32. No other band is read or written.
\<close>

definition normalize_raster :: "writer \<Rightarrow> filesystem \<Rightarrow> string \<Rightarrow> error + out_dataset" where
  "normalize_raster wr fs input_file =
     (case rio_open fs input_file of Inl e \<Rightarrow> Inl e
      | Inr src \<Rightarrow>
     (case read_band src 1 of Inl e \<Rightarrow> Inl e
      | Inr data \<Rightarrow>
     (case np_min data of Inl e \<Rightarrow> Inl e
      | Inr data_min \<Rightarrow>
     (case np_max data of Inl e \<Rightarrow> Inl e
      | Inr data_max \<Rightarrow>
          (let normalized_data =
                 np_scalar (\<lambda>x. fdiv (fsub x data_min) (fsub data_max data_min)) data;
               profile = (ds_meta src)\<lparr>dtype := ''float32''\<rparr>
           in case wr profile 1 normalized_data of Inl e \<Rightarrow> Inl e
              | Inr stored \<Rightarrow>
                  Inr \<lparr>o_meta = profile,
                       o_bands = (replicate (count profile) None)[0 := Some stored]\<rparr>)))))"

section \<open>Band loading and indices: \<open>Sentinel2Processor\<close>\<close>

text \<open>
  The processor object holds \<open>self.bands\<close>, \<open>self.indices\<close> and \<open>self.meta\<close>; the last one
  does not exist until \<open>load_bands\<close> has met band B04. The \<open>.SAFE\<close> directory is a map from
  a band name to the first file that \<open>find_band_path\<close> finds for it.
\<close>

record processor =
  bands :: "string \<rightharpoonup> grid"
  indices :: "string \<rightharpoonup> grid"
  meta :: "rio_meta option"

definition init_processor :: processor where
  "init_processor = \<lparr>bands = Map.empty, indices = Map.empty, meta = None\<rparr>"

definition find_band_path :: "filesystem \<Rightarrow> string \<Rightarrow> error + dataset" where
  "find_band_path safe band_name =
     (case safe band_name of None \<Rightarrow> Inl FileNotFoundError | Some src \<Rightarrow> Inr src)"

text \<open>
  \<open>src.read(1, out_shape=target_shape, resampling=Resampling.bilinear)\<close> belongs to the
  raster library: the parameter \<open>rs\<close> takes the target shape and the data of the band and
  returns the resampled array.
\<close>

type_synonym resampler = "nat \<times> nat \<Rightarrow> grid \<Rightarrow> grid"

definition returns_shape :: "resampler \<Rightarrow> bool" where
  "returns_shape rs = (\<forall>h w g. is_array h w (rs (h, w) g))"

fun load_loop :: "resampler \<Rightarrow> filesystem \<Rightarrow> string list \<Rightarrow> processor \<Rightarrow> error + processor" where
  "load_loop rs safe [] p = Inr p"
| "load_loop rs safe (band_name # rest) p =
     (case find_band_path safe band_name of Inl e \<Rightarrow> Inl e
      | Inr src \<Rightarrow>
          (case read_band src 1 of Inl e \<Rightarrow> Inl e
           | Inr data0 \<Rightarrow>
               (let data =
                      (if band_name \<in> set [''B11'', ''B12'']
                       then (let target_shape =
                                   (height (ds_meta src) * 2, width (ds_meta src) * 2)
                             in rs target_shape data0)
                       else data0);
                    p1 = p\<lparr>bands := (bands p)(band_name \<mapsto> data)\<rparr>;
                    p2 = (if band_name = ''B04'' then p1\<lparr>meta := Some (ds_meta src)\<rparr> else p1)
                in load_loop rs safe rest p2)))"

definition required_bands :: "string list" where
  "required_bands = [''B02'', ''B03'', ''B04'', ''B08'', ''B11'', ''B12'']"

definition load_bands :: "resampler \<Rightarrow> filesystem \<Rightarrow> processor \<Rightarrow> error + processor" where
  "load_bands rs safe p = load_loop rs safe required_bands p"

definition eps :: real where
  "eps = 1 / 1000000"

definition calculate_ndvi :: "processor \<Rightarrow> error + processor" where
  "calculate_ndvi p =
     (case bands p ''B04'' of None \<Rightarrow> Inl KeyError
      | Some red \<Rightarrow>
     (case bands p ''B08'' of None \<Rightarrow> Inl KeyError
      | Some nir \<Rightarrow>
     (case np_binop fsub nir red of Inl e \<Rightarrow> Inl e
      | Inr num \<Rightarrow>
     (case np_binop fadd nir red of Inl e \<Rightarrow> Inl e
      | Inr s \<Rightarrow>
     (case np_binop fdiv num (np_scalar (\<lambda>x. fadd x (Fin eps)) s) of Inl e \<Rightarrow> Inl e
      | Inr ndvi \<Rightarrow> Inr (p\<lparr>indices := (indices p)(''NDVI'' \<mapsto> ndvi)\<rparr>))))))"

text \<open>\<open>calculate_nir\<close>, the min-max normalisation of the same repository that adds
  \<open>1e-6\<close> to the span.\<close>

definition calculate_nir :: "processor \<Rightarrow> error + processor" where
  "calculate_nir p =
     (case bands p ''B08'' of None \<Rightarrow> Inl KeyError
      | Some nir \<Rightarrow>
     (case np_nanmin nir of Inl e \<Rightarrow> Inl e
      | Inr nir_min \<Rightarrow>
     (case np_nanmax nir of Inl e \<Rightarrow> Inl e
      | Inr nir_max \<Rightarrow>
          Inr (p\<lparr>indices := (indices p)(''NIR'' \<mapsto>
                 np_scalar (\<lambda>x. fdiv (fsub x nir_min) (fadd (fsub nir_max nir_min) (Fin eps)))
                   nir)\<rparr>))))"

section \<open>Overlap of two rasters: \<open>crop_to_overlap\<close>\<close>

text \<open>
  \<open>shapely.geometry.box\<close> builds the rectangle spanned by two corners; the intersection of
  two such rectangles is empty or again an axis-aligned rectangle (possibly a segment or a
  point, which shapely does not report as empty). \<open>inside\<close> is the point set of a geometry.
\<close>

datatype geom = Empty | Rect real real real real

fun inside :: "geom \<Rightarrow> real \<times> real \<Rightarrow> bool" where
  "inside Empty p = False"
| "inside (Rect xlo ylo xhi yhi) (x, y) = (xlo \<le> x \<and> x \<le> xhi \<and> ylo \<le> y \<and> y \<le> yhi)"

fun box :: "real \<times> real \<times> real \<times> real \<Rightarrow> geom" where
  "box (minx, miny, maxx, maxy) =
     Rect (min minx maxx) (min miny maxy) (max minx maxx) (max miny maxy)"

fun intersection :: "geom \<Rightarrow> geom \<Rightarrow> geom" where
  "intersection (Rect a b c d) (Rect a' b' c' d') =
     (if max a a' \<le> min c c' \<and> max b b' \<le> min d d'
      then Rect (max a a') (max b b') (min c c') (min d d') else Empty)"
| "intersection _ _ = Empty"

fun is_empty :: "geom \<Rightarrow> bool" where
  "is_empty Empty = True"
| "is_empty (Rect xlo ylo xhi yhi) = False"

text \<open>
  The library calls are parameters: \<open>tb\<close> is \<open>transform_bounds\<close> into EPSG:4326 (from a
  CRS and bounds), \<open>tg\<close> is \<open>transform_geom\<close> from EPSG:4326 into a CRS, \<open>mk\<close> is
  \<open>rasterio.mask.mask\<close> with \<open>crop=True\<close> (the clipped bands and their transform), and
  \<open>sv\<close> creates the output file and writes all bands (\<open>None\<close> when nothing is raised).
\<close>

type_synonym bounds_transformer =
  "string \<Rightarrow> real \<times> real \<times> real \<times> real \<Rightarrow> error + real \<times> real \<times> real \<times> real"
type_synonym 'g geom_transformer = "string \<Rightarrow> geom \<Rightarrow> error + 'g"
type_synonym 'g masker = "dataset \<Rightarrow> 'g \<Rightarrow> error + grid list \<times> real list"
type_synonym saver = "string \<Rightarrow> out_dataset \<Rightarrow> error option"

definition get_bounds ::
  "bounds_transformer \<Rightarrow> filesystem \<Rightarrow> string
     \<Rightarrow> error + geom \<times> string \<times> (real \<times> real \<times> real \<times> real)" where
  "get_bounds tb fs filepath =
     (case rio_open fs filepath of Inl e \<Rightarrow> Inl e
      | Inr src \<Rightarrow>
          (case tb (crs (ds_meta src)) (ds_bounds src) of Inl e \<Rightarrow> Inl e
           | Inr wgs84_bounds \<Rightarrow> Inr (box wgs84_bounds, crs (ds_meta src), ds_bounds src)))"

definition basename :: "string \<Rightarrow> string" where
  "basename p = rev (takeWhile (\<lambda>c. c \<noteq> CHR ''/'') (rev p))"

definition path_join :: "string \<Rightarrow> string \<Rightarrow> string" where
  "path_join a b =
     (if b \<noteq> [] \<and> hd b = CHR ''/'' then b
      else if a = [] \<or> last a = CHR ''/'' then a @ b
      else a @ ''/'' @ b)"

text \<open>The array \<open>out_image\<close> is 3D: \<open>shape[1]\<close> and \<open>shape[2]\<close> are the rows and the
  columns of its bands.\<close>

definition clipped_dataset :: "dataset \<Rightarrow> grid list \<Rightarrow> real list \<Rightarrow> out_dataset" where
  "clipped_dataset src out_image out_transform =
     \<lparr>o_meta = (ds_meta src)\<lparr>height := (case out_image of [] \<Rightarrow> 0 | b # _ \<Rightarrow> nrows b),
                              width := (case out_image of [] \<Rightarrow> 0 | b # _ \<Rightarrow> ncols b),
                              transform := out_transform\<rparr>,
      o_bands = map Some out_image\<rparr>"

text \<open>
  The result of cropping one image to the overlap: saved under a path, or an exception
  caught and printed by the inner \<open>try\<close>. The file is opened outside that \<open>try\<close>, so a
  failure to open leaves the function; and the handler of \<open>ValueError\<close> prints \<open>geom\<close>,
  which is unbound when \<open>transform_geom\<close> itself raised it.
\<close>

datatype crop_result = Saved string out_dataset | CropError error

definition overlap_crop_and_save ::
  "'g geom_transformer \<Rightarrow> 'g masker \<Rightarrow> saver \<Rightarrow> filesystem \<Rightarrow> geom \<Rightarrow> string \<Rightarrow> string
     \<Rightarrow> error + crop_result" where
  "overlap_crop_and_save tg mk sv fs overlap_area input_path output_folder =
     (case rio_open fs input_path of Inl e \<Rightarrow> Inl e
      | Inr src \<Rightarrow>
          (case tg (crs (ds_meta src)) overlap_area of
             Inl e \<Rightarrow> (if e = ValueError then Inl UnboundLocalError else Inr (CropError e))
           | Inr geom \<Rightarrow>
               (case mk src geom of Inl e \<Rightarrow> Inr (CropError e)
                | Inr (out_image, out_transform) \<Rightarrow>
                    (let output_path =
                           path_join output_folder (''cropped_'' @ basename input_path);
                         out = clipped_dataset src out_image out_transform
                     in case sv output_path out of Some e \<Rightarrow> Inr (CropError e)
                        | None \<Rightarrow> Inr (Saved output_path out)))))"

text \<open>
  The outcome of \<open>crop_to_overlap\<close>: it always returns. Either an exception reached the
  outer \<open>try\<close> and was printed, or the overlap was empty and the function returned before
  any crop, or both crops were attempted. The second component lists the crops attempted.
\<close>

datatype outcome = ErrorPrinted error | NoOverlap | Completed

definition crop_to_overlap ::
  "bounds_transformer \<Rightarrow> 'g geom_transformer \<Rightarrow> 'g masker \<Rightarrow> saver \<Rightarrow> filesystem
     \<Rightarrow> string \<Rightarrow> string \<Rightarrow> string \<Rightarrow> string \<Rightarrow> outcome \<times> crop_result list" where
  "crop_to_overlap tb tg mk sv fs s1_path s2_path output_folder_s1 output_folder_s2 =
     (case get_bounds tb fs s1_path of Inl e \<Rightarrow> (ErrorPrinted e, [])
      | Inr (s1_bounds, s1_crs, s1_orig_bounds) \<Rightarrow>
     (case get_bounds tb fs s2_path of Inl e \<Rightarrow> (ErrorPrinted e, [])
      | Inr (s2_bounds, s2_crs, s2_orig_bounds) \<Rightarrow>
          (let overlap_area = intersection s1_bounds s2_bounds
           in if is_empty overlap_area then (NoOverlap, [])
              else (case overlap_crop_and_save tg mk sv fs overlap_area s1_path output_folder_s1 of
                      Inl e \<Rightarrow> (ErrorPrinted e, [])
                    | Inr r1 \<Rightarrow>
                        (case overlap_crop_and_save tg mk sv fs overlap_area s2_path
                                output_folder_s2 of
                           Inl e \<Rightarrow> (ErrorPrinted e, [r1])
                         | Inr r2 \<Rightarrow> (Completed, [r1, r2]))))))"

section \<open>Clipping by features: \<open>clip_with_shapefile\<close>\<close>




















section \<open>Tiling\<close>

text \<open>
  A window is \<open>Window(col_off, row_off, width, height)\<close>; its pixels are pairs of a row and
  a column. \<open>range(0, stop, step)\<close> holds the multiples of \<open>step\<close> below \<open>stop\<close>; a step of
  0 raises \<open>ValueError\<close>, which the callers below meet before any tile is made.
\<close>

record window =
  col_off :: nat
  row_off :: nat
  win_width :: nat
  win_height :: nat

definition pixels :: "window \<Rightarrow> (nat \<times> nat) set" where
  "pixels w = {row_off w ..< row_off w + win_height w} \<times> {col_off w ..< col_off w + win_width w}"

definition py_range :: "nat \<Rightarrow> nat \<Rightarrow> nat list" where
  "py_range stop step = map (\<lambda>k. k * step) [0..<(stop + step - 1) div step]"

text \<open>
  Policy A, the loop nest of \<open>crop_and_save\<close> in \<open>sent-1_croper.py\<close>: the outer loop runs
  over the columns, the inner one over the rows, and the window is clamped to the raster.
  The source fixes \<open>tile_size = 1024\<close>.
\<close>

definition clamp_windows :: "nat \<Rightarrow> nat \<Rightarrow> nat \<Rightarrow> error + window list" where
  "clamp_windows wd ht tile_size =
     (if tile_size = 0 then Inl ValueError
      else Inr (concat (map (\<lambda>i. map (\<lambda>j.
             (let w = min tile_size (wd - i); h = min tile_size (ht - j)
              in \<lparr>col_off = i, row_off = j, win_width = w, win_height = h\<rparr>))
             (py_range ht tile_size)) (py_range wd tile_size))))"

definition crop_and_save :: "nat \<Rightarrow> nat \<Rightarrow> error + window list" where
  "crop_and_save wd ht = clamp_windows wd ht 1024"

text \<open>
  Policy B, \<open>crop_image_slice\<close> in \<open>tif_cropper.py\<close>: the number of crops in each dimension
  is the floor division (a crop size of 0 raises), and each crop is the numpy slice
  \<open>img[y_start:y_start+crop_size, x_start:x_start+crop_size]\<close>, which numpy cuts at the
  border of the array. The function returns the number of crops it wrote.
\<close>

definition np_slice :: "nat \<Rightarrow> nat \<Rightarrow> nat \<Rightarrow> nat \<Rightarrow> nat \<Rightarrow> nat \<Rightarrow> window" where
  "np_slice ht wd a b c d =
     \<lparr>col_off = min c wd, row_off = min a ht,
      win_width = min d wd - min c wd, win_height = min b ht - min a ht\<rparr>"

definition crop_image_slice :: "nat \<Rightarrow> nat \<Rightarrow> nat \<Rightarrow> error + window list" where
  "crop_image_slice ht wd crop_size =
     (if crop_size = 0 then Inl ZeroDivisionError
      else (let crops_height = ht div crop_size; crops_width = wd div crop_size
            in Inr (concat (map (\<lambda>y. map (\<lambda>x.
                 (let y_start = y * crop_size; x_start = x * crop_size
                  in np_slice ht wd y_start (y_start + crop_size) x_start (x_start + crop_size)))
                 [0..<crops_width]) [0..<crops_height]))))"

definition crops_generated :: "nat \<Rightarrow> nat \<Rightarrow> nat \<Rightarrow> error + nat" where
  "crops_generated ht wd crop_size = map_sum id length (crop_image_slice ht wd crop_size)"

text \<open>How many windows of a list hold a pixel.\<close>

definition cover_count :: "window list \<Rightarrow> nat \<times> nat \<Rightarrow> nat" where
  "cover_count ws p = length (filter (\<lambda>w. p \<in> pixels w) ws)"

text \<open>The window that policy A makes at the offsets \<open>i\<close>, \<open>j\<close>, and the full window of
  policy B at the block \<open>y\<close>, \<open>x\<close>.\<close>

definition clamp_window :: "nat \<Rightarrow> nat \<Rightarrow> nat \<Rightarrow> nat \<Rightarrow> nat \<Rightarrow> window" where
  "clamp_window wd ht ts i j =
     \<lparr>col_off = i, row_off = j, win_width = min ts (wd - i), win_height = min ts (ht - j)\<rparr>"

definition full_window :: "nat \<Rightarrow> nat \<Rightarrow> nat \<Rightarrow> window" where
  "full_window cs y x = \<lparr>col_off = x * cs, row_off = y * cs, win_width = cs, win_height = cs\<rparr>"

section \<open>Auxiliary predicates and concrete inputs\<close>

text \<open>
  Predicates on files in which the theorems below state their hypotheses, and small
  rasters, features and library functions at which the theorems are instantiated and the
  code is evaluated.
\<close>

definition tile_a :: dataset where
  "tile_a = \<lparr>ds_meta = \<lparr>count = 1, height = 2, width = 2, dtype = ''float32'',
                         crs = ''EPSG:32643'', transform = [10, 0, 0, 0, -10, 20]\<rparr>,
             ds_bounds = (0, 0, 20, 20),
             ds_bands = [[[Fin 1, Fin 2], [Fin 3, Fin 4]]]\<rparr>"

text \<open>A masker that raises when the geometry does not meet the bounds of the raster, as
  \<open>rasterio.mask.mask\<close> does with \<open>crop=True\<close>, and else returns the bands unchanged.\<close>

definition box_mask :: "geom masker" where
  "box_mask src g =
     (if is_empty (intersection (box (ds_bounds src)) g) then Inl ValueError
      else Inr (ds_bands src, transform (ds_meta src)))"

definition always_saves :: saver where
  "always_saves path out = None"



definition tile_b :: dataset where
  "tile_b = \<lparr>ds_meta = \<lparr>count = 1, height = 2, width = 2, dtype = ''float32'',
                         crs = ''EPSG:4326'', transform = [10, 0, 100, 0, -10, 120]\<rparr>,
             ds_bounds = (100, 100, 120, 120),
             ds_bands = [[[Fin 5, Fin 6], [Fin 7, Fin 8]]]\<rparr>"

text \<open>Transformers for rasters whose coordinates are already those of the reference
  system.\<close>

definition same_bounds :: bounds_transformer where
  "same_bounds c b = Inr b"

definition same_geom :: "geom geom_transformer" where
  "same_geom c g = Inr g"

text \<open>A band file of a given size with all pixels 0, and a \<open>.SAFE\<close> directory whose 10 m
  bands are one file and whose 20 m bands are another.\<close>

definition band_file :: "nat \<Rightarrow> nat \<Rightarrow> dataset" where
  "band_file h w =
     \<lparr>ds_meta = \<lparr>count = 1, height = h, width = w, dtype = ''uint16'',
                  crs = ''EPSG:32643'', transform = []\<rparr>,
      ds_bounds = (0, 0, 0, 0),
      ds_bands = [replicate h (replicate w (Fin 0))]\<rparr>"

definition safe_of :: "dataset \<Rightarrow> dataset \<Rightarrow> filesystem" where
  "safe_of ten twenty =
     [''B02'' \<mapsto> ten, ''B03'' \<mapsto> ten, ''B04'' \<mapsto> ten, ''B08'' \<mapsto> ten,
      ''B11'' \<mapsto> twenty, ''B12'' \<mapsto> twenty]"

text \<open>The shape of a band after \<open>load_bands\<close> on a fresh processor.\<close>

definition loaded_shape :: "resampler \<Rightarrow> filesystem \<Rightarrow> string \<Rightarrow> (nat \<times> nat) option" where
  "loaded_shape rs safe band_name =
     (case load_bands rs safe init_processor of Inl e \<Rightarrow> None
      | Inr p \<Rightarrow> map_option shape (bands p band_name))"

text \<open>
  What the amended claim C6 asks of the files: a 10 m band file holds a first band of
  \<open>h\<close> rows and \<open>w\<close> columns; a 20 m band file has a first band, and twice its height and
  width are \<open>h\<close> and \<open>w\<close>.
\<close>

definition ten_metre :: "filesystem \<Rightarrow> nat \<Rightarrow> nat \<Rightarrow> string \<Rightarrow> bool" where
  "ten_metre safe h w b =
     (case safe b of None \<Rightarrow> False
      | Some src \<Rightarrow> ds_bands src \<noteq> [] \<and> is_array h w (hd (ds_bands src)))"

definition twenty_metre :: "filesystem \<Rightarrow> nat \<Rightarrow> nat \<Rightarrow> string \<Rightarrow> bool" where
  "twenty_metre safe h w b =
     (case safe b of None \<Rightarrow> False
      | Some src \<Rightarrow> ds_bands src \<noteq> []
          \<and> height (ds_meta src) * 2 = h \<and> width (ds_meta src) * 2 = w)"

text \<open>The first band of the file under a path (the empty array when there is none), and
  whether the file exists with at least one band.\<close>

definition first_band :: "filesystem \<Rightarrow> string \<Rightarrow> grid" where
  "first_band fs file =
     (case fs file of None \<Rightarrow> []
      | Some src \<Rightarrow> (case ds_bands src of [] \<Rightarrow> [] | b # _ \<Rightarrow> b))"

definition has_band :: "filesystem \<Rightarrow> string \<Rightarrow> bool" where
  "has_band fs file = (case fs file of None \<Rightarrow> False | Some src \<Rightarrow> ds_bands src \<noteq> [])"

text \<open>Index rasters for the fusion: a two-band stack whose bands differ in range, a
  constant raster, and a raster of one pixel.\<close>

definition two_band_stack :: dataset where
  "two_band_stack =
     \<lparr>ds_meta = \<lparr>count = 2, height = 1, width = 2, dtype = ''float64'',
                  crs = ''EPSG:4326'', transform = [10, 0, 0, 0, -10, 10]\<rparr>,
      ds_bounds = (0, 0, 20, 10),
      ds_bands = [[[Fin 0, Fin 1]], [[Fin 5, Fin 10]]]\<rparr>"

definition constant_raster :: dataset where
  "constant_raster =
     \<lparr>ds_meta = \<lparr>count = 1, height = 2, width = 2, dtype = ''float64'',
                  crs = ''EPSG:4326'', transform = [10, 0, 0, 0, -10, 20]\<rparr>,
      ds_bounds = (0, 0, 20, 20),
      ds_bands = [[[Fin 5, Fin 5], [Fin 5, Fin 5]]]\<rparr>"

definition one_pixel :: dataset where
  "one_pixel =
     \<lparr>ds_meta = \<lparr>count = 1, height = 1, width = 1, dtype = ''float32'',
                  crs = ''EPSG:32643'', transform = [20, 0, 0, 0, -20, 20]\<rparr>,
      ds_bounds = (0, 0, 20, 20),
      ds_bands = [[[Fin 9]]]\<rparr>"

text \<open>A file with exactly one band, of \<open>h\<close> rows and \<open>w\<close> columns and of dtype \<open>d\<close>,
  whose values that dtype can hold.\<close>

definition single_band :: "filesystem \<Rightarrow> nat \<Rightarrow> nat \<Rightarrow> string \<Rightarrow> string \<Rightarrow> bool" where
  "single_band fs h w d file =
     (case fs file of None \<Rightarrow> False
      | Some src \<Rightarrow> length (ds_bands src) = 1 \<and> is_array h w (hd (ds_bands src))
          \<and> dtype (ds_meta src) = d \<and> values_fit d (hd (ds_bands src)))"

text \<open>A file whose first band has the shape and the dtype of a given profile.\<close>

definition first_band_fits :: "filesystem \<Rightarrow> rio_meta \<Rightarrow> string \<Rightarrow> bool" where
  "first_band_fits fs m file =
     (is_array (height m) (width m) (first_band fs file)
      \<and> values_fit (dtype m) (first_band fs file))"

text \<open>Two rasters of one shape and different dtype.\<close>

definition byte_tile :: dataset where
  "byte_tile =
     \<lparr>ds_meta = \<lparr>count = 1, height = 1, width = 2, dtype = ''uint8'',
                  crs = ''EPSG:4326'', transform = [10, 0, 0, 0, -10, 10]\<rparr>,
      ds_bounds = (0, 0, 20, 10),
      ds_bands = [[[Fin 7, Fin 8]]]\<rparr>"

definition float_tile :: dataset where
  "float_tile =
     \<lparr>ds_meta = \<lparr>count = 1, height = 1, width = 2, dtype = ''float64'',
                  crs = ''EPSG:4326'', transform = [10, 0, 0, 0, -10, 10]\<rparr>,
      ds_bounds = (0, 0, 20, 10),
      ds_bands = [[[Fin (11 / 2), Fin 3]]]\<rparr>"

text \<open>A two-band raster of dtype float64 whose first band holds a value that is no whole
  number.\<close>

definition float_pair :: dataset where
  "float_pair =
     \<lparr>ds_meta = \<lparr>count = 2, height = 1, width = 2, dtype = ''float64'',
                  crs = ''EPSG:4326'', transform = [10, 0, 0, 0, -10, 10]\<rparr>,
      ds_bounds = (0, 0, 20, 10),
      ds_bands = [[[Fin (5 / 2), Fin 4]], [[Fin 100, Fin 200]]]\<rparr>"

section \<open>Properties of the tiling\<close>

lemma filter_eq_upt: "filter (\<lambda>k. k = a) [0..<m] = (if a < m then [a] else [])"
  by (induction m) auto

lemma div_lt_ceil:
  assumes "0 < ts" "x < n"
  shows "x div ts < (n + ts - 1) div (ts::nat)"
proof -
  have "x + ts \<le> n + ts - 1" using assms by simp
  then have "(x + ts) div ts \<le> (n + ts - 1) div ts" by (rule div_le_mono)
  moreover have "(x + ts) div ts = x div ts + 1" using assms by (simp add: div_add_self2)
  ultimately show ?thesis by simp
qed

lemma div_unique_block:
  assumes "0 < (ts::nat)"
  shows "(k * ts \<le> x \<and> x < k * ts + ts) = (k = x div ts)"
proof
  assume h: "k * ts \<le> x \<and> x < k * ts + ts"
  then have "x < (k + 1) * ts" by simp
  then have "x div ts < k + 1" using assms by (simp add: less_mult_imp_div_less)
  moreover have "k \<le> x div ts" using h assms by (metis div_le_mono div_mult_self_is_m)
  ultimately show "k = x div ts" by simp
next
  assume "k = x div ts"
  then show "k * ts \<le> x \<and> x < k * ts + ts" using assms
    by (metis add.commute div_mult_mod_eq le_add1 mod_less_divisor nat_add_left_cancel_less mult.commute)
qed

lemma clamp_1d:
  assumes "0 < ts" "x < n"
  shows "filter (\<lambda>i. i \<le> x \<and> x < i + min ts (n - i)) (py_range n ts) = [(x div ts) * ts]"
proof -
  let ?m = "(n + ts - 1) div ts"
  have P: "(k * ts \<le> x \<and> x < k * ts + min ts (n - k * ts)) = (k = x div ts)" for k
  proof -
    have "(k * ts \<le> x \<and> x < k * ts + min ts (n - k * ts)) = (k * ts \<le> x \<and> x < k * ts + ts)"
      using assms by auto
    then show ?thesis using div_unique_block [OF assms(1)] by simp
  qed
  have "filter (\<lambda>i. i \<le> x \<and> x < i + min ts (n - i)) (py_range n ts)
        = map (\<lambda>k. k * ts) (filter (\<lambda>k. k = x div ts) [0..<?m])"
    unfolding py_range_def filter_map comp_def using P by simp
  also have "\<dots> = [(x div ts) * ts]"
    using div_lt_ceil [OF assms] by (simp add: filter_eq_upt)
  finally show ?thesis .
qed

lemma trunc_1d:
  assumes "0 < ts" "x < (n div ts) * ts"
  shows "filter (\<lambda>k. k * ts \<le> x \<and> x < k * ts + ts) [0..<n div ts] = [x div ts]"
proof -
  have "x div ts < n div ts" using assms by (simp add: less_mult_imp_div_less)
  then show ?thesis
    unfolding div_unique_block [OF assms(1)] by (simp add: filter_eq_upt)
qed

lemma filter_grid:
  assumes "\<And>i j. P (W i j) = (A i \<and> B j)"
  shows "filter P (concat (map (\<lambda>i. map (\<lambda>j. W i j) ys) xs))
         = concat (map (\<lambda>i. map (\<lambda>j. W i j) (filter B ys)) (filter A xs))"
proof (induction xs)
  case Nil
  show ?case by simp
next
  case (Cons i xs)
  have "filter P (map (\<lambda>j. W i j) ys) = (if A i then map (\<lambda>j. W i j) (filter B ys) else [])"
    by (simp add: filter_map comp_def assms)
  with Cons show ?case by simp
qed

lemma length_grid: "length (concat (map (\<lambda>i. map (\<lambda>j. W i j) ys) xs)) = length xs * length ys"
  by (induction xs) auto

lemma clamp_windows_eq:
  "0 < ts \<Longrightarrow> clamp_windows wd ht ts
     = Inr (concat (map (\<lambda>i. map (\<lambda>j. clamp_window wd ht ts i j) (py_range ht ts)) (py_range wd ts)))"
  by (simp add: clamp_windows_def clamp_window_def Let_def)

lemma clamp_filter:
  assumes ts: "0 < ts" and r: "r < ht" and c: "c < wd"
  shows "filter (\<lambda>w. (r, c) \<in> pixels w)
           (concat (map (\<lambda>i. map (\<lambda>j. clamp_window wd ht ts i j) (py_range ht ts)) (py_range wd ts)))
         = [clamp_window wd ht ts ((c div ts) * ts) ((r div ts) * ts)]"
proof -
  have split: "((r, c) \<in> pixels (clamp_window wd ht ts i j))
      = ((i \<le> c \<and> c < i + min ts (wd - i)) \<and> (j \<le> r \<and> r < j + min ts (ht - j)))" for i j
    by (auto simp: pixels_def clamp_window_def)
  show ?thesis
    unfolding filter_grid [of "\<lambda>w. (r, c) \<in> pixels w" "clamp_window wd ht ts", OF split]
    by (simp add: clamp_1d [OF ts r] clamp_1d [OF ts c])
qed

lemma in_py_range:
  assumes ts: "0 < ts" and i: "i \<in> set (py_range n ts)"
  shows "i < n"
proof -
  from i have "\<exists>k. i = k * ts \<and> k < (n + ts - 1) div ts"
    by (auto simp: py_range_def)
  then obtain k where k: "i = k * ts" "k < (n + ts - 1) div ts"
    by blast
  have "k * ts < n"
  proof (rule ccontr)
    assume "\<not> k * ts < n"
    then have "n + ts - 1 < k * ts + ts" using ts by simp
    then have "n + ts - 1 < (k + 1) * ts" by simp
    then have "(n + ts - 1) div ts < k + 1" using ts by (simp add: less_mult_imp_div_less)
    with k show False by simp
  qed
  with k show "i < n" by simp
qed

lemma clamp_inside:
  assumes "0 < ts"
    and "w \<in> set (concat (map (\<lambda>i. map (\<lambda>j. clamp_window wd ht ts i j) (py_range ht ts)) (py_range wd ts)))"
  shows "pixels w \<subseteq> {0..<ht} \<times> {0..<wd}
         \<and> win_width w = min ts (wd - col_off w) \<and> win_height w = min ts (ht - row_off w)"
proof -
  from assms(2) obtain i j where ij: "i \<in> set (py_range wd ts)" "j \<in> set (py_range ht ts)"
     and w: "w = clamp_window wd ht ts i j"
    by auto
  have "i < wd" "j < ht" using ij in_py_range [OF assms(1)] by auto
  then show ?thesis using assms(1) unfolding w pixels_def clamp_window_def by auto
qed

lemma block_fits: "k < n div cs \<Longrightarrow> k * cs + cs \<le> (n div cs) * (cs::nat)"
proof -
  assume "k < n div cs"
  then have "(k + 1) * cs \<le> (n div cs) * cs" by (intro mult_le_mono1) simp
  then show ?thesis by simp
qed

lemma crop_image_slice_eq:
  assumes "0 < cs"
  shows "crop_image_slice ht wd cs
     = Inr (concat (map (\<lambda>y. map (\<lambda>x. full_window cs y x) [0..<wd div cs]) [0..<ht div cs]))"
proof -
  have fit: "k * cs + cs \<le> n" if "k < n div cs" for k n
    using block_fits [OF that] by (meson div_times_less_eq_dividend le_trans)
  have "np_slice ht wd (y * cs) (y * cs + cs) (x * cs) (x * cs + cs) = full_window cs y x"
    if "y < ht div cs" "x < wd div cs" for y x
    using fit [OF that(1)] fit [OF that(2)] by (simp add: np_slice_def full_window_def min_def)
  then have "map (\<lambda>y. map (\<lambda>x. np_slice ht wd (y * cs) (y * cs + cs) (x * cs) (x * cs + cs))
                 [0..<wd div cs]) [0..<ht div cs]
           = map (\<lambda>y. map (\<lambda>x. full_window cs y x) [0..<wd div cs]) [0..<ht div cs]"
    by (intro map_cong refl) simp_all
  then have "concat (map (\<lambda>y. map (\<lambda>x. np_slice ht wd (y * cs) (y * cs + cs) (x * cs) (x * cs + cs))
                 [0..<wd div cs]) [0..<ht div cs])
           = concat (map (\<lambda>y. map (\<lambda>x. full_window cs y x) [0..<wd div cs]) [0..<ht div cs])"
    by (rule arg_cong)
  moreover have "crop_image_slice ht wd cs
     = Inr (concat (map (\<lambda>y. map (\<lambda>x. np_slice ht wd (y * cs) (y * cs + cs) (x * cs) (x * cs + cs))
                 [0..<wd div cs]) [0..<ht div cs]))"
    using assms unfolding crop_image_slice_def Let_def by simp
  ultimately show ?thesis by (simp only:)
qed

lemma trunc_filter:
  assumes cs: "0 < cs" and r: "r < (ht div cs) * cs" and c: "c < (wd div cs) * cs"
  shows "filter (\<lambda>w. (r, c) \<in> pixels w)
           (concat (map (\<lambda>y. map (\<lambda>x. full_window cs y x) [0..<wd div cs]) [0..<ht div cs]))
         = [full_window cs (r div cs) (c div cs)]"
proof -
  have split: "((r, c) \<in> pixels (full_window cs y x))
      = ((y * cs \<le> r \<and> r < y * cs + cs) \<and> (x * cs \<le> c \<and> c < x * cs + cs))" for y x
    by (auto simp: pixels_def full_window_def)
  show ?thesis
    unfolding filter_grid [of "\<lambda>w. (r, c) \<in> pixels w" "full_window cs", OF split]
    by (simp add: trunc_1d [OF cs r] trunc_1d [OF cs c])
qed

lemma trunc_inside:
  assumes "w \<in> set (concat (map (\<lambda>y. map (\<lambda>x. full_window cs y x) [0..<wd div cs]) [0..<ht div cs]))"
  shows "pixels w \<subseteq> {0..<(ht div cs) * cs} \<times> {0..<(wd div cs) * cs}
         \<and> win_width w = cs \<and> win_height w = cs"
proof -
  from assms obtain y x where yx: "y < ht div cs" "x < wd div cs" and w: "w = full_window cs y x"
    by auto
  show ?thesis using block_fits [OF yx(1)] block_fits [OF yx(2)]
    unfolding w pixels_def full_window_def by auto
qed

lemma cover_union:
  assumes "\<And>p. p \<in> R \<Longrightarrow> cover_count ws p = 1" and "\<And>w. w \<in> set ws \<Longrightarrow> pixels w \<subseteq> R"
  shows "\<Union> (pixels ` set ws) = R"
proof
  show "\<Union> (pixels ` set ws) \<subseteq> R" using assms(2) by auto
  show "R \<subseteq> \<Union> (pixels ` set ws)"
  proof
    fix p assume "p \<in> R"
    then have "filter (\<lambda>w. p \<in> pixels w) ws \<noteq> []"
      using assms(1) [of p] by (auto simp: cover_count_def)
    then obtain w where "w \<in> set (filter (\<lambda>w. p \<in> pixels w) ws)"
      by (meson last_in_set)
    then show "p \<in> \<Union> (pixels ` set ws)" by auto
  qed
qed

text \<open>
  Claim C3. For a raster of \<open>ht\<close> rows and \<open>wd\<close> columns and a tile size above 0:
  under policy A (clamp) the loop returns windows whose width and height are
  \<open>min(tile_size, extent - offset)\<close>, whose union is the whole raster, and every pixel of
  the raster lies in exactly one window of the list (no gap, no overlap); under policy B
  (truncate) exactly \<open>(ht // tile_size) * (wd // tile_size)\<close> windows are returned, all of
  the full tile size, their union is the upper left
  \<open>(ht // tile_size) * tile_size\<close> by \<open>(wd // tile_size) * tile_size\<close> pixels (the
  remainder strip is dropped), and no two of them overlap.
\<close>

theorem tiling_coverage:
  assumes "0 < tile_size"
  shows "(\<exists>ws. clamp_windows wd ht tile_size = Inr ws
            \<and> (\<forall>w \<in> set ws. win_width w = min tile_size (wd - col_off w)
                            \<and> win_height w = min tile_size (ht - row_off w))
            \<and> \<Union> (pixels ` set ws) = {0..<ht} \<times> {0..<wd}
            \<and> (\<forall>p \<in> {0..<ht} \<times> {0..<wd}. cover_count ws p = 1))
       \<and> (\<exists>ts. crop_image_slice ht wd tile_size = Inr ts
            \<and> length ts = (ht div tile_size) * (wd div tile_size)
            \<and> (\<forall>w \<in> set ts. win_width w = tile_size \<and> win_height w = tile_size)
            \<and> \<Union> (pixels ` set ts)
                = {0..<(ht div tile_size) * tile_size} \<times> {0..<(wd div tile_size) * tile_size}
            \<and> (\<forall>p \<in> \<Union> (pixels ` set ts). cover_count ts p = 1))"
proof (rule conjI)
  let ?ws = "concat (map (\<lambda>i. map (\<lambda>j. clamp_window wd ht tile_size i j)
                (py_range ht tile_size)) (py_range wd tile_size))"
  have cnt: "cover_count ?ws p = 1" if "p \<in> {0..<ht} \<times> {0..<wd}" for p
  proof -
    obtain r c where p: "p = (r, c)" by (cases p)
    with that have "r < ht" "c < wd" by auto
    then show ?thesis
      unfolding cover_count_def p by (simp add: clamp_filter [OF assms])
  qed
  have ins: "pixels w \<subseteq> {0..<ht} \<times> {0..<wd}" if "w \<in> set ?ws" for w
    using clamp_inside [OF assms that] by simp
  have "\<Union> (pixels ` set ?ws) = {0..<ht} \<times> {0..<wd}"
    using cnt ins by (rule cover_union)
  moreover have "\<forall>w \<in> set ?ws. win_width w = min tile_size (wd - col_off w)
                            \<and> win_height w = min tile_size (ht - row_off w)"
    using clamp_inside [OF assms] by blast
  ultimately show "\<exists>ws. clamp_windows wd ht tile_size = Inr ws
            \<and> (\<forall>w \<in> set ws. win_width w = min tile_size (wd - col_off w)
                            \<and> win_height w = min tile_size (ht - row_off w))
            \<and> \<Union> (pixels ` set ws) = {0..<ht} \<times> {0..<wd}
            \<and> (\<forall>p \<in> {0..<ht} \<times> {0..<wd}. cover_count ws p = 1)"
    using cnt clamp_windows_eq [OF assms, of wd ht] by blast
next
  let ?R = "{0..<(ht div tile_size) * tile_size} \<times> {0..<(wd div tile_size) * tile_size}"
  let ?ts = "concat (map (\<lambda>y. map (\<lambda>x. full_window tile_size y x)
                [0..<wd div tile_size]) [0..<ht div tile_size])"
  have cnt: "cover_count ?ts p = 1" if "p \<in> ?R" for p
  proof -
    obtain r c where p: "p = (r, c)" by (cases p)
    with that have "r < (ht div tile_size) * tile_size" "c < (wd div tile_size) * tile_size"
      by auto
    then show ?thesis
      unfolding cover_count_def p by (simp add: trunc_filter [OF assms])
  qed
  have ins: "pixels w \<subseteq> ?R" if "w \<in> set ?ts" for w
    using trunc_inside [OF that] by simp
  have un: "\<Union> (pixels ` set ?ts) = ?R"
    using cnt ins by (rule cover_union)
  have "length ?ts = (ht div tile_size) * (wd div tile_size)"
    by (simp add: length_grid)
  moreover have "\<forall>w \<in> set ?ts. win_width w = tile_size \<and> win_height w = tile_size"
    using trunc_inside by blast
  moreover have "\<forall>p \<in> \<Union> (pixels ` set ?ts). cover_count ?ts p = 1"
    unfolding un using cnt by blast
  ultimately show "\<exists>ts. crop_image_slice ht wd tile_size = Inr ts
            \<and> length ts = (ht div tile_size) * (wd div tile_size)
            \<and> (\<forall>w \<in> set ts. win_width w = tile_size \<and> win_height w = tile_size)
            \<and> \<Union> (pixels ` set ts) = ?R
            \<and> (\<forall>p \<in> \<Union> (pixels ` set ts). cover_count ts p = 1)"
    using un crop_image_slice_eq [OF assms, of ht wd] by blast
qed


theorem tiling_coverage_witness:
  "0 < (1024::nat)
   \<and> (\<exists>ws. clamp_windows 2049 2049 1024 = Inr ws
          \<and> \<Union> (pixels ` set ws) = {0..<2049} \<times> {0..<2049}
          \<and> (\<forall>p \<in> {0..<2049} \<times> {0..<2049}. cover_count ws p = 1))
   \<and> (\<exists>ts. crop_image_slice 2049 2049 1024 = Inr ts \<and> length ts = 4
          \<and> \<Union> (pixels ` set ts) = {0..<2048} \<times> {0..<2048})"
proof -
  have h: "0 < (1024::nat)" by simp
  have "(2049::nat) div 1024 = 2" by simp
  with tiling_coverage [OF h, of 2049 2049] h show ?thesis by auto
qed

section \<open>Properties of clipping by features\<close>
















section \<open>Properties of the overlap\<close>


lemma inside_intersection:
  "inside (intersection g1 g2) p = (inside g1 p \<and> inside g2 p)"
proof (cases p)
  case (Pair x y)
  show ?thesis unfolding Pair
    by (cases g1; cases g2) auto
qed

lemma intersection_empty_iff:
  assumes "\<forall>p. \<not> (inside g1 p \<and> inside g2 p)"
  shows "is_empty (intersection g1 g2)"
proof (cases "intersection g1 g2")
  case Empty
  then show ?thesis by simp
next
  case (Rect x0 y0 x1 y1)
  then obtain a b c d a' b' c' d' where g: "g1 = Rect a b c d" "g2 = Rect a' b' c' d'"
    by (cases g1; cases g2) auto
  from Rect have "x0 \<le> x1 \<and> y0 \<le> y1"
    unfolding g by (auto split: if_splits)
  then have "inside (intersection g1 g2) (x0, y0)" unfolding Rect by simp
  then have "inside g1 (x0, y0) \<and> inside g2 (x0, y0)" by (simp only: inside_intersection)
  with assms show ?thesis by blast
qed

text \<open>
  Claim C7. For two rasters that open and whose bounds, transformed into the reference
  system, are rectangles with no point in common, \<open>crop_to_overlap\<close> returns with the
  outcome \<open>NoOverlap\<close>: no crop is attempted and nothing is written, whatever the
  transformer of geometries, the masker and the saver are, and the outcome is not the
  printed error of the outer handler.
\<close>

theorem disjoint_bounds_no_overlap:
  assumes "fs s1_path = Some r1" and "fs s2_path = Some r2"
    and "tb (crs (ds_meta r1)) (ds_bounds r1) = Inr w1"
    and "tb (crs (ds_meta r2)) (ds_bounds r2) = Inr w2"
    and "\<forall>p. \<not> (inside (box w1) p \<and> inside (box w2) p)"
  shows "crop_to_overlap tb tg mk sv fs s1_path s2_path output_folder_s1 output_folder_s2
           = (NoOverlap, [])"
proof -
  have b1: "get_bounds tb fs s1_path = Inr (box w1, crs (ds_meta r1), ds_bounds r1)"
    using assms(1,3) by (simp add: get_bounds_def rio_open_def)
  have b2: "get_bounds tb fs s2_path = Inr (box w2, crs (ds_meta r2), ds_bounds r2)"
    using assms(2,4) by (simp add: get_bounds_def rio_open_def)
  have "is_empty (intersection (box w1) (box w2))"
    using assms(5) by (rule intersection_empty_iff)
  then show ?thesis
    by (simp add: crop_to_overlap_def b1 b2)
qed

theorem disjoint_bounds_no_overlap_witness:
  "[''s1.tif'' \<mapsto> tile_a, ''s2.tif'' \<mapsto> tile_b] ''s1.tif'' = Some tile_a
   \<and> [''s1.tif'' \<mapsto> tile_a, ''s2.tif'' \<mapsto> tile_b] ''s2.tif'' = Some tile_b
   \<and> same_bounds (crs (ds_meta tile_a)) (ds_bounds tile_a) = Inr (0, 0, 20, 20)
   \<and> same_bounds (crs (ds_meta tile_b)) (ds_bounds tile_b) = Inr (100, 100, 120, 120)
   \<and> (\<forall>p. \<not> (inside (box (0, 0, 20, 20)) p \<and> inside (box (100, 100, 120, 120)) p))
   \<and> crop_to_overlap same_bounds same_geom box_mask always_saves
        [''s1.tif'' \<mapsto> tile_a, ''s2.tif'' \<mapsto> tile_b] ''s1.tif'' ''s2.tif''
        ''cropped_sentinel1'' ''cropped_sentinel2'' = (NoOverlap, [])"
proof -
  let ?fs = "[''s1.tif'' \<mapsto> tile_a, ''s2.tif'' \<mapsto> tile_b]"
  have h1: "?fs ''s1.tif'' = Some tile_a" by simp
  have h2: "?fs ''s2.tif'' = Some tile_b" by simp
  have h3: "same_bounds (crs (ds_meta tile_a)) (ds_bounds tile_a) = Inr (0, 0, 20, 20)"
    by (simp add: same_bounds_def tile_a_def)
  have h4: "same_bounds (crs (ds_meta tile_b)) (ds_bounds tile_b) = Inr (100, 100, 120, 120)"
    by (simp add: same_bounds_def tile_b_def)
  have h5: "\<forall>p. \<not> (inside (box (0, 0, 20, 20)) p \<and> inside (box (100, 100, 120, 120)) p)"
    by auto
  from disjoint_bounds_no_overlap [of ?fs "''s1.tif''" tile_a "''s2.tif''" tile_b same_bounds
         "(0, 0, 20, 20)" "(100, 100, 120, 120)" same_geom box_mask always_saves
         "''cropped_sentinel1''" "''cropped_sentinel2''", OF h1 h2 h3 h4 h5]
  show ?thesis using h1 h2 h3 h4 h5 by blast
qed

section \<open>Properties of band loading\<close>


lemma is_array_scale_to: "is_array h w (scale_to (h, w) g)"
  by (simp add: is_array_def scale_to_def list_all_iff)

lemma returns_shape_scale_to: "returns_shape scale_to"
  by (simp add: returns_shape_def is_array_scale_to)

lemma read_band_1: "ds_bands src \<noteq> [] \<Longrightarrow> read_band src (Suc 0) = Inr (hd (ds_bands src))"
  by (cases "ds_bands src") (simp_all add: read_band_def)

lemma load_bands_result:
  assumes "safe ''B02'' = Some s02" "ds_bands s02 \<noteq> []"
    and "safe ''B03'' = Some s03" "ds_bands s03 \<noteq> []"
    and "safe ''B04'' = Some s04" "ds_bands s04 \<noteq> []"
    and "safe ''B08'' = Some s08" "ds_bands s08 \<noteq> []"
    and "safe ''B11'' = Some s11" "ds_bands s11 \<noteq> []"
    and "safe ''B12'' = Some s12" "ds_bands s12 \<noteq> []"
  shows "load_bands rs safe p
     = Inr (p\<lparr>bands := (bands p)
                 (''B02'' \<mapsto> hd (ds_bands s02), ''B03'' \<mapsto> hd (ds_bands s03),
                  ''B04'' \<mapsto> hd (ds_bands s04), ''B08'' \<mapsto> hd (ds_bands s08),
                  ''B11'' \<mapsto> rs (height (ds_meta s11) * 2, width (ds_meta s11) * 2)
                                 (hd (ds_bands s11)),
                  ''B12'' \<mapsto> rs (height (ds_meta s12) * 2, width (ds_meta s12) * 2)
                                 (hd (ds_bands s12))),
              meta := Some (ds_meta s04)\<rparr>)"
  using assms
  by (simp add: load_bands_def required_bands_def find_band_path_def read_band_1 Let_def)


text \<open>
  Claim C6, as amended. When the files of the four 10 m bands hold a first band of one
  shape \<open>h\<close> by \<open>w\<close>, the files of the two 20 m bands have half that height and width,
  and the library's resampled read returns the shape it is asked for, \<open>load_bands\<close>
  succeeds, keeps the metadata of B04 for the whole set, stores B04 as it was read, and every
  required band ends with the shape \<open>h\<close> by \<open>w\<close> of B04. The 20 m bands are read at
  twice their own height and width: the factor 2 is fixed in the code.
\<close>

theorem harmonized_shapes:
  assumes ten: "list_all (ten_metre safe h w) [''B02'', ''B03'', ''B04'', ''B08'']"
    and twenty: "list_all (twenty_metre safe h w) [''B11'', ''B12'']"
    and rs: "returns_shape rs"
  shows "\<exists>p. load_bands rs safe init_processor = Inr p
           \<and> meta p = map_option ds_meta (safe ''B04'')
           \<and> bands p ''B04'' = map_option (\<lambda>src. hd (ds_bands src)) (safe ''B04'')
           \<and> list_all (\<lambda>b. case bands p b of None \<Rightarrow> False | Some g \<Rightarrow> is_array h w g)
                required_bands"
proof -
  from ten obtain s02 s03 s04 s08 where
    f: "safe ''B02'' = Some s02" "ds_bands s02 \<noteq> []" "safe ''B03'' = Some s03" "ds_bands s03 \<noteq> []"
       "safe ''B04'' = Some s04" "ds_bands s04 \<noteq> []" "safe ''B08'' = Some s08" "ds_bands s08 \<noteq> []"
    and a: "is_array h w (hd (ds_bands s02))" "is_array h w (hd (ds_bands s03))"
       "is_array h w (hd (ds_bands s04))" "is_array h w (hd (ds_bands s08))"
    by (auto simp: ten_metre_def split: option.splits)
  from twenty obtain s11 s12 where
    g: "safe ''B11'' = Some s11" "ds_bands s11 \<noteq> []" "safe ''B12'' = Some s12" "ds_bands s12 \<noteq> []"
    and d: "height (ds_meta s11) * 2 = h" "width (ds_meta s11) * 2 = w"
       "height (ds_meta s12) * 2 = h" "width (ds_meta s12) * 2 = w"
    by (auto simp: twenty_metre_def split: option.splits)
  have r: "is_array h w (rs (h, w) x)" for x
    using rs by (simp add: returns_shape_def)
  show ?thesis
    unfolding load_bands_result [OF f g]
    by (simp add: f a d r required_bands_def)
qed

lemma is_array_replicate: "is_array h w (replicate h (replicate w v))"
  by (simp add: is_array_def list_all_iff)

theorem harmonized_shapes_witness:
  "list_all (ten_metre (safe_of (band_file 4 4) (band_file 2 2)) 4 4)
      [''B02'', ''B03'', ''B04'', ''B08'']
   \<and> list_all (twenty_metre (safe_of (band_file 4 4) (band_file 2 2)) 4 4) [''B11'', ''B12'']
   \<and> returns_shape scale_to
   \<and> (\<exists>p. load_bands scale_to (safe_of (band_file 4 4) (band_file 2 2)) init_processor = Inr p
          \<and> meta p = Some (ds_meta (band_file 4 4))
          \<and> list_all (\<lambda>b. case bands p b of None \<Rightarrow> False | Some g \<Rightarrow> is_array 4 4 g)
               required_bands)"
proof -
  let ?safe = "safe_of (band_file 4 4) (band_file 2 2)"
  have h1: "list_all (ten_metre ?safe 4 4) [''B02'', ''B03'', ''B04'', ''B08'']"
    by (simp add: ten_metre_def safe_of_def band_file_def is_array_replicate)
  have h2: "list_all (twenty_metre ?safe 4 4) [''B11'', ''B12'']"
    by (simp add: twenty_metre_def safe_of_def band_file_def)
  have m: "map_option ds_meta (?safe ''B04'') = Some (ds_meta (band_file 4 4))"
    by (simp add: safe_of_def)
  from harmonized_shapes [OF h1 h2 returns_shape_scale_to]
  show ?thesis using h1 h2 returns_shape_scale_to unfolding m by blast
qed

theorem harmonized_shapes_counterexample:
  "loaded_shape scale_to (safe_of (band_file 3 3) (band_file 2 2)) ''B04'' = Some (3, 3)
   \<and> loaded_shape scale_to (safe_of (band_file 3 3) (band_file 2 2)) ''B11'' = Some (4, 4)"
proof -
  let ?safe = "safe_of (band_file 3 3) (band_file 2 2)"
  have f: "?safe ''B02'' = Some (band_file 3 3)" "ds_bands (band_file 3 3) \<noteq> []"
          "?safe ''B03'' = Some (band_file 3 3)" "ds_bands (band_file 3 3) \<noteq> []"
          "?safe ''B04'' = Some (band_file 3 3)" "ds_bands (band_file 3 3) \<noteq> []"
          "?safe ''B08'' = Some (band_file 3 3)" "ds_bands (band_file 3 3) \<noteq> []"
          "?safe ''B11'' = Some (band_file 2 2)" "ds_bands (band_file 2 2) \<noteq> []"
          "?safe ''B12'' = Some (band_file 2 2)" "ds_bands (band_file 2 2) \<noteq> []"
    by (simp_all add: safe_of_def band_file_def)
  have s3: "shape (hd (ds_bands (band_file 3 3))) = (3, 3)"
    by (simp add: band_file_def shape_def nrows_def ncols_def numeral_3_eq_3)
  have s4: "shape (scale_to (height (ds_meta (band_file 2 2)) * 2, width (ds_meta (band_file 2 2)) * 2) x)
              = (4, 4)" for x
    by (simp add: band_file_def shape_def nrows_def ncols_def scale_to_def upt_rec
          split: list.splits)
  show ?thesis
    unfolding loaded_shape_def load_bands_result [OF f]
    by (simp add: s3 s4)
qed

section \<open>Properties of the indices\<close>


lemma is_array_nth: "is_array h w g \<Longrightarrow> r < h \<Longrightarrow> length (g ! r) = w"
  by (simp add: is_array_def list_all_length)

lemma is_array_shape: "is_array h w g \<Longrightarrow> nrows g = h \<and> (0 < h \<longrightarrow> ncols g = w)"
  by (cases g) (auto simp: is_array_def nrows_def ncols_def)

lemma is_array_table: "is_array h w (map (\<lambda>r. map (\<lambda>c. F r c) [0..<w]) [0..<h])"
  by (simp add: is_array_def list_all_iff)

lemma np_binop_same_shape:
  assumes a: "is_array h w a" and b: "is_array h w b"
  shows "np_binop f a b = Inr (map (\<lambda>r. map (\<lambda>c. f (a ! r ! c) (b ! r ! c)) [0..<w]) [0..<h])"
proof (cases "h = 0")
  case True
  with a b show ?thesis
    by (simp add: np_binop_def bdim_def is_array_def nrows_def ncols_def)
next
  case False
  then have s: "nrows a = h" "ncols a = w" "nrows b = h" "ncols b = w"
    using is_array_shape [OF a] is_array_shape [OF b] by simp_all
  have it: "item g r c = g ! r ! c" if "nrows g = h" "ncols g = w" "r < h" "c < w" for g r c
    using that by (auto simp: item_def)
  have "map (\<lambda>r. map (\<lambda>c. f (item a r c) (item b r c)) [0..<w]) [0..<h]
        = map (\<lambda>r. map (\<lambda>c. f (a ! r ! c) (b ! r ! c)) [0..<w]) [0..<h]"
    by (intro map_cong refl) (simp add: it s)
  then show ?thesis
    by (simp add: np_binop_def bdim_def s)
qed

lemma np_scalar_table:
  assumes "is_array h w g"
  shows "np_scalar f g = map (\<lambda>r. map (\<lambda>c. f (g ! r ! c)) [0..<w]) [0..<h]"
proof -
  have len: "length g = h" using assms by (simp add: is_array_def)
  have row: "map f (g ! r) = map (\<lambda>c. f (g ! r ! c)) [0..<w]" if "r < h" for r
    using is_array_nth [OF assms that] by (intro nth_equalityI) simp_all
  show ?thesis
    unfolding np_scalar_def using len row by (intro nth_equalityI) simp_all
qed

text \<open>
  Claim C2. For grids RED (B04) and NIR (B08) of one shape, \<open>calculate_ndvi\<close> returns
  without raising and stores under \<open>NDVI\<close> a grid of that shape whose element at every
  row and column is \<open>(NIR - RED) / (NIR + RED + 1e-6)\<close> of the elements there, in numpy's
  arithmetic, where a zero divisor gives an infinity or \<open>NaN\<close> and never an exception. At
  RED = NIR = 0 the element is 0, as the witness shows.
\<close>

theorem ndvi_formula:
  assumes "bands p ''B04'' = Some red" and "bands p ''B08'' = Some nir"
    and "is_array h w red" and "is_array h w nir"
  shows "\<exists>ndvi. calculate_ndvi p = Inr (p\<lparr>indices := (indices p)(''NDVI'' \<mapsto> ndvi)\<rparr>)
           \<and> is_array h w ndvi
           \<and> (\<forall>r < h. \<forall>c < w.
                ndvi ! r ! c
                  = fdiv (fsub (nir ! r ! c) (red ! r ! c))
                         (fadd (fadd (nir ! r ! c) (red ! r ! c)) (Fin (1 / 1000000))))"
proof -
  let ?num = "map (\<lambda>r. map (\<lambda>c. fsub (nir ! r ! c) (red ! r ! c)) [0..<w]) [0..<h]"
  let ?sum = "map (\<lambda>r. map (\<lambda>c. fadd (nir ! r ! c) (red ! r ! c)) [0..<w]) [0..<h]"
  let ?den = "map (\<lambda>r. map (\<lambda>c. fadd (?sum ! r ! c) (Fin eps)) [0..<w]) [0..<h]"
  let ?ndvi = "map (\<lambda>r. map (\<lambda>c. fdiv (?num ! r ! c) (?den ! r ! c)) [0..<w]) [0..<h]"
  have num: "np_binop fsub nir red = Inr ?num"
    using assms(4,3) by (rule np_binop_same_shape)
  have sum: "np_binop fadd nir red = Inr ?sum"
    using assms(4,3) by (rule np_binop_same_shape)
  have den: "np_scalar (\<lambda>x. fadd x (Fin eps)) ?sum = ?den"
    using is_array_table by (rule np_scalar_table)
  have quot: "np_binop fdiv ?num ?den = Inr ?ndvi"
    using is_array_table is_array_table by (rule np_binop_same_shape)
  have "calculate_ndvi p = Inr (p\<lparr>indices := (indices p)(''NDVI'' \<mapsto> ?ndvi)\<rparr>)"
    unfolding calculate_ndvi_def by (simp only: assms(1,2) num sum den quot option.case sum.case)
  moreover have "is_array h w ?ndvi" by (rule is_array_table)
  moreover have "\<forall>r < h. \<forall>c < w.
                ?ndvi ! r ! c
                  = fdiv (fsub (nir ! r ! c) (red ! r ! c))
                         (fadd (fadd (nir ! r ! c) (red ! r ! c)) (Fin (1 / 1000000)))"
    by (simp add: eps_def)
  ultimately show ?thesis by blast
qed

theorem ndvi_formula_witness:
  "bands (init_processor\<lparr>bands := [''B04'' \<mapsto> [[Fin 0, Fin 100]], ''B08'' \<mapsto> [[Fin 0, Fin 200]]]\<rparr>)
      ''B04'' = Some [[Fin 0, Fin 100]]
   \<and> bands (init_processor\<lparr>bands := [''B04'' \<mapsto> [[Fin 0, Fin 100]], ''B08'' \<mapsto> [[Fin 0, Fin 200]]]\<rparr>)
      ''B08'' = Some [[Fin 0, Fin 200]]
   \<and> is_array 1 2 [[Fin 0, Fin 100]] \<and> is_array 1 2 [[Fin 0, Fin 200]]
   \<and> (\<exists>ndvi. calculate_ndvi
                (init_processor\<lparr>bands := [''B04'' \<mapsto> [[Fin 0, Fin 100]], ''B08'' \<mapsto> [[Fin 0, Fin 200]]]\<rparr>)
              = Inr (init_processor\<lparr>bands := [''B04'' \<mapsto> [[Fin 0, Fin 100]],
                                               ''B08'' \<mapsto> [[Fin 0, Fin 200]]],
                                     indices := [''NDVI'' \<mapsto> ndvi]\<rparr>)
          \<and> ndvi ! 0 ! 0 = Fin 0
          \<and> ndvi ! 0 ! 1 = Fin (100 / (300 + 1 / 1000000)))"
proof -
  let ?p = "init_processor\<lparr>bands := [''B04'' \<mapsto> [[Fin 0, Fin 100]], ''B08'' \<mapsto> [[Fin 0, Fin 200]]]\<rparr>"
  have h1: "bands ?p ''B04'' = Some [[Fin 0, Fin 100]]" by simp
  have h2: "bands ?p ''B08'' = Some [[Fin 0, Fin 200]]" by simp
  have h3: "is_array 1 2 [[Fin 0, Fin 100]]" by (simp add: is_array_def)
  have h4: "is_array 1 2 [[Fin 0, Fin 200]]" by (simp add: is_array_def)
  from ndvi_formula [OF h1 h2 h3 h4] obtain ndvi where
    r: "calculate_ndvi ?p = Inr (?p\<lparr>indices := (indices ?p)(''NDVI'' \<mapsto> ndvi)\<rparr>)"
    and e: "\<forall>r < 1. \<forall>c < 2.
                ndvi ! r ! c
                  = fdiv (fsub ([[Fin 0, Fin 200]] ! r ! c) ([[Fin 0, Fin 100]] ! r ! c))
                         (fadd (fadd ([[Fin 0, Fin 200]] ! r ! c) ([[Fin 0, Fin 100]] ! r ! c))
                            (Fin (1 / 1000000)))"
    by blast
  have "ndvi ! 0 ! 0 = Fin 0" using e [rule_format, of 0 0] by (simp add: fsub_def)
  moreover have "ndvi ! 0 ! 1 = Fin (100 / (300 + 1 / 1000000))"
    using e [rule_format, of 0 1] by (simp add: fsub_def)
  moreover have "indices ?p = Map.empty" by (simp add: init_processor_def)
  ultimately show ?thesis using h1 h2 h3 h4 r by (auto simp add: init_processor_def)
qed

section \<open>Properties of the fusion\<close>


lemma is_array_as_table:
  assumes "is_array h w g"
  shows "map (\<lambda>r. map (\<lambda>c. g ! r ! c) [0..<w]) [0..<h] = g"
proof -
  have len: "length g = h" using assms by (simp add: is_array_def)
  have row: "map (\<lambda>c. g ! r ! c) [0..<w] = g ! r" if "r < h" for r
    using is_array_nth [OF assms that] by (intro nth_equalityI) simp_all
  show ?thesis using len row by (intro nth_equalityI) simp_all
qed

lemma scale_to_same_shape:
  assumes "is_array h w g"
  shows "scale_to (h, w) g = g"
proof -
  have n: "nrows g = h" using assms by (simp add: is_array_def nrows_def)
  have c: "ncols g = w" if "0 < h"
    using assms that by (cases g) (auto simp: is_array_def ncols_def)
  have "map (\<lambda>r. map (\<lambda>c. g ! (r * nrows g div h) ! (c * ncols g div w)) [0..<w]) [0..<h]
        = map (\<lambda>r. map (\<lambda>c. g ! r ! c) [0..<w]) [0..<h]"
  proof (intro map_cong refl)
    fix r c assume "r \<in> set [0..<h]" "c \<in> set [0..<w]"
    then have "r < h" "c < w" by simp_all
    then have "r * nrows g div h = r" "c * ncols g div w = c"
      using n c by simp_all
    then show "g ! (r * nrows g div h) ! (c * ncols g div w) = g ! r ! c" by simp
  qed
  then show ?thesis
    unfolding scale_to_def by (simp add: is_array_as_table [OF assms])
qed

lemma scaling_write_shaped:
  assumes "1 \<le> idx" "idx \<le> count m" "is_array (height m) (width m) g"
  shows "scaling_write m idx g = Inr g"
proof -
  have "\<not> ((nrows g = 0 \<or> ncols g = 0) \<and> 0 < height m \<and> 0 < width m)"
    using assms(3) by (cases g) (auto simp: is_array_def nrows_def ncols_def)
  then show ?thesis
    using assms(1,2) scale_to_same_shape [OF assms(3)] by (simp add: scaling_write_def)
qed

lemma stores_shaped_scaling_write: "stores_shaped scaling_write"
  unfolding stores_shaped_def using scaling_write_shaped by blast

lemma cast_representable:
  assumes "representable d v"
  shows "cast d v = v"
proof (cases "is_float_dtype d")
  case True
  then show ?thesis by (simp add: cast_def)
next
  case False
  with assms have "int_range d \<noteq> None"
    by (cases "int_range d") (simp_all add: representable_def)
  then obtain lo hi where r: "int_range d = Some (lo, hi)"
    by (cases "int_range d") auto
  with assms False have "case v of Fin x \<Rightarrow> x = of_int \<lfloor>x\<rfloor> \<and> of_int lo \<le> x \<and> x \<le> of_int hi
                          | _ \<Rightarrow> False"
    by (simp add: representable_def)
  then obtain x where v: "v = Fin x"
    and x: "x = of_int \<lfloor>x\<rfloor>" "of_int lo \<le> x" "x \<le> of_int hi"
    by (cases v) simp_all
  have fl: "lo \<le> \<lfloor>x\<rfloor>" "\<lfloor>x\<rfloor> \<le> hi" using x(2,3) by (simp_all add: le_floor_iff floor_le_iff)
  have ce: "\<lceil>x\<rceil> = \<lfloor>x\<rfloor>" using x(1) by (metis ceiling_of_int)
  have tz: "toward_zero v = \<lfloor>x\<rfloor>" unfolding v using ce by simp
  have "(\<lfloor>x\<rfloor> - lo) mod (hi - lo + 1) = \<lfloor>x\<rfloor> - lo"
    using fl by (intro mod_pos_pos_trivial) simp_all
  then have "lo + (toward_zero v - lo) mod (hi - lo + 1) = \<lfloor>x\<rfloor>" using tz by simp
  then show ?thesis
    using False r x(1) by (simp add: cast_def v)
qed

lemma cast_values_fit:
  assumes "values_fit d g"
  shows "map (map (cast d)) g = g"
proof -
  have "map (cast d) row = row" if "row \<in> set g" for row
  proof -
    have "list_all (representable d) row" using assms that by (simp add: values_fit_def list_all_iff)
    then have "\<forall>v \<in> set row. cast d v = v" by (simp add: list_all_iff cast_representable)
    then show ?thesis by (simp add: map_idI)
  qed
  then show ?thesis by (simp add: map_idI)
qed

lemma stores_shaped_casting_write: "stores_shaped casting_write"
proof -
  have "casting_write m idx g = Inr g"
    if "1 \<le> idx" "idx \<le> count m" "is_array (height m) (width m) g" "values_fit (dtype m) g"
    for m idx g
  proof -
    have "\<not> ((nrows g = 0 \<or> ncols g = 0) \<and> 0 < height m \<and> 0 < width m)"
      using that(3) by (cases g) (auto simp: is_array_def nrows_def ncols_def)
    then show ?thesis
      using that(1,2) scale_to_same_shape [OF that(3)] cast_values_fit [OF that(4)]
      by (simp add: casting_write_def)
  qed
  then show ?thesis unfolding stores_shaped_def by blast
qed

lemma has_band_read:
  assumes "has_band fs file"
  shows "\<exists>src. rio_open fs file = Inr src \<and> fs file = Some src
           \<and> read_band src 1 = Inr (first_band fs file)"
  using assms
  by (auto simp: has_band_def first_band_def rio_open_def read_band_def
        split: option.splits list.splits)

lemma read_layers_ok:
  assumes "list_all (has_band fs) files"
  shows "read_layers fs n files mt layers
     = Inr (case mt of Some m \<Rightarrow> Some m
            | None \<Rightarrow> (case files of [] \<Rightarrow> None
                        | f # _ \<Rightarrow> map_option (\<lambda>src. (ds_meta src)\<lparr>count := n\<rparr>) (fs f)),
            layers @ map (first_band fs) files)"
  using assms
proof (induction files arbitrary: mt layers)
  case Nil
  show ?case by (simp split: option.splits)
next
  case (Cons f files)
  from Cons.prems have hb: "has_band fs f" and rest: "list_all (has_band fs) files" by simp_all
  from has_band_read [OF hb] obtain src where
    src: "rio_open fs f = Inr src" "fs f = Some src" "read_band src 1 = Inr (first_band fs f)"
    by blast
  then have src': "read_band src (Suc 0) = Inr (first_band fs f)" by simp
  show ?case
    by (simp add: src src' Let_def Cons.IH [OF rest] split: option.splits)
qed

lemma write_layers_ok:
  assumes "\<forall>k < length layers. wr m (idx + k) (layers ! k) = Inr (st (idx + k))"
    and "1 \<le> idx" and "idx - 1 + length layers \<le> length bs"
  shows "write_layers wr m idx layers bs
     = Inr (take (idx - 1) bs @ map (\<lambda>k. Some (st (idx + k))) [0..<length layers]
              @ drop (idx - 1 + length layers) bs)"
  using assms
proof (induction layers arbitrary: idx bs)
  case Nil
  show ?case by simp
next
  case (Cons layer layers)
  have w0: "wr m idx layer = Inr (st idx)" using Cons.prems(1) by force
  have rest: "\<forall>k < length layers. wr m (idx + 1 + k) (layers ! k) = Inr (st (idx + 1 + k))"
  proof (intro allI impI)
    fix k assume "k < length layers"
    then have "Suc k < length (layer # layers)" by simp
    from Cons.prems(1) [rule_format, OF this] show "wr m (idx + 1 + k) (layers ! k) = Inr (st (idx + 1 + k))"
      by simp
  qed
  let ?bs = "bs[idx - 1 := Some (st idx)]"
  have lt: "idx - 1 < length bs" using Cons.prems(2,3) by simp
  have ih: "write_layers wr m (idx + 1) layers ?bs
     = Inr (take (idx + 1 - 1) ?bs @ map (\<lambda>k. Some (st (idx + 1 + k))) [0..<length layers]
              @ drop (idx + 1 - 1 + length layers) ?bs)"
    using rest Cons.prems(2,3) by (intro Cons.IH) simp_all
  have t: "take (idx + 1 - 1) ?bs = take (idx - 1) bs @ [Some (st idx)]"
  proof -
    obtain j where j: "idx = Suc j" using Cons.prems(2) by (cases idx) simp_all
    have "j < length (bs[j := Some (st idx)])" using lt j by simp
    then have "take (Suc j) (bs[j := Some (st idx)])
                 = take j (bs[j := Some (st idx)]) @ [bs[j := Some (st idx)] ! j]"
      by (rule take_Suc_conv_app_nth)
    also have "\<dots> = take j bs @ [Some (st idx)]" using lt j by simp
    finally show ?thesis using j by simp
  qed
  have d: "drop (idx + 1 - 1 + length layers) ?bs = drop (idx - 1 + length (layer # layers)) bs"
    using Cons.prems(2) by simp
  have m: "map (\<lambda>k. Some (st (idx + k))) [0..<length (layer # layers)]
           = Some (st idx) # map (\<lambda>k. Some (st (idx + 1 + k))) [0..<length layers]"
    by (simp add: upt_conv_Cons map_Suc_upt [symmetric] del: upt_Suc)
  show ?case
    by (simp only: write_layers.simps w0 sum.case ih t d m append_assoc append_Cons append_Nil)
qed

lemma stack_rasters_stored:
  assumes files: "list_all (has_band fs) input_files"
    and first: "input_files = f0 # rest" "fs f0 = Some src0"
    and wr: "\<forall>k < length input_files.
               wr ((ds_meta src0)\<lparr>count := length input_files\<rparr>) (1 + k)
                  (first_band fs (input_files ! k)) = Inr (st (1 + k))"
  shows "stack_rasters wr fs input_files
     = Inr \<lparr>o_meta = (ds_meta src0)\<lparr>count := length input_files\<rparr>,
            o_bands = map (\<lambda>k. Some (st (1 + k))) [0..<length input_files]\<rparr>"
proof -
  let ?m = "(ds_meta src0)\<lparr>count := length input_files\<rparr>"
  have rd: "read_layers fs (length input_files) input_files None []
              = Inr (Some ?m, map (first_band fs) input_files)"
    unfolding read_layers_ok [OF files] using first by simp
  have "\<forall>k < length (map (first_band fs) input_files).
           wr ?m (1 + k) (map (first_band fs) input_files ! k) = Inr (st (1 + k))"
    using wr by simp
  moreover have "(1::nat) \<le> 1" by simp
  moreover have "1 - 1 + length (map (first_band fs) input_files)
                   \<le> length (replicate (count ?m) (None :: grid option))"
    by simp
  ultimately have "write_layers wr ?m 1 (map (first_band fs) input_files)
                     (replicate (count ?m) None)
     = Inr (take (1 - 1) (replicate (count ?m) None)
            @ map (\<lambda>k. Some (st (1 + k))) [0..<length (map (first_band fs) input_files)]
            @ drop (1 - 1 + length (map (first_band fs) input_files))
                (replicate (count ?m) None))"
    by (rule write_layers_ok [where wr = wr and m = ?m and idx = 1 and st = st])
  then have wl: "write_layers wr ?m 1 (map (first_band fs) input_files) (replicate (count ?m) None)
              = Inr (map (\<lambda>k. Some (st (1 + k))) [0..<length input_files])"
    by simp
  show ?thesis
    unfolding stack_rasters_def using wl by (simp add: rd)
qed


lemma stack_rasters_first_bands:
  assumes files: "list_all (has_band fs) input_files"
    and first: "input_files = f0 # rest" "fs f0 = Some src0"
    and fits: "list_all (first_band_fits fs (ds_meta src0)) input_files"
    and wr: "stores_shaped wr"
  shows "stack_rasters wr fs input_files
     = Inr \<lparr>o_meta = (ds_meta src0)\<lparr>count := length input_files\<rparr>,
            o_bands = map (\<lambda>f. Some (first_band fs f)) input_files\<rparr>"
proof -
  let ?m = "(ds_meta src0)\<lparr>count := length input_files\<rparr>"
  let ?st = "\<lambda>i. first_band fs (input_files ! (i - 1))"
  have "\<forall>k < length input_files.
          wr ?m (1 + k) (first_band fs (input_files ! k)) = Inr (?st (1 + k))"
  proof (intro allI impI)
    fix k assume k: "k < length input_files"
    then have "first_band_fits fs (ds_meta src0) (input_files ! k)"
      using fits by (simp add: list_all_length)
    then have "is_array (height ?m) (width ?m) (first_band fs (input_files ! k))
               \<and> values_fit (dtype ?m) (first_band fs (input_files ! k))"
      by (simp add: first_band_fits_def)
    moreover have "1 \<le> 1 + k \<and> 1 + k \<le> count ?m" using k by simp
    ultimately show "wr ?m (1 + k) (first_band fs (input_files ! k)) = Inr (?st (1 + k))"
      using wr unfolding stores_shaped_def by simp
  qed
  with files first have "stack_rasters wr fs input_files
     = Inr \<lparr>o_meta = ?m, o_bands = map (\<lambda>k. Some (?st (1 + k))) [0..<length input_files]\<rparr>"
    by (rule stack_rasters_stored [where st = ?st])
  moreover have "map (\<lambda>k. Some (?st (1 + k))) [0..<length input_files]
                 = map (\<lambda>f. Some (first_band fs f)) input_files"
    by (intro nth_equalityI) simp_all
  ultimately show ?thesis by simp
qed

lemma stack_rasters_empty: "stack_rasters wr fs [] = Inl TypeError"
  by (simp add: stack_rasters_def)


text \<open>
  Claim C4, as amended. For a non-empty list of files: when the files hold one band each,
  all of the shape and the dtype that the metadata of the first file gives, and the library
  write stores an array of the shape and dtype of the dataset as it is, \<open>stack_rasters\<close>
  returns an output whose metadata is that of the first file with \<open>count\<close> set to the number
  of files, and whose band \<open>k\<close> is the data of input \<open>k\<close>, in the order of the input. And
  the function compares no shapes and raises no error of its own for them: for files of any
  shapes that open with a band, whenever the library write returns for every layer, the
  function returns with each band as that write stored it.
\<close>

theorem stack_single_band_in_order:
  assumes first: "input_files = f0 # rest" "fs f0 = Some src0"
  shows "(list_all (single_band fs (height (ds_meta src0)) (width (ds_meta src0))
                      (dtype (ds_meta src0))) input_files
          \<and> stores_shaped wr
          \<longrightarrow> (\<exists>out. stack_rasters wr fs input_files = Inr out
                 \<and> o_meta out = (ds_meta src0)\<lparr>count := length input_files\<rparr>
                 \<and> length (o_bands out) = length input_files
                 \<and> (\<forall>k < length input_files. \<forall>src. fs (input_files ! k) = Some src
                       \<longrightarrow> map Some (ds_bands src) = [o_bands out ! k])))
       \<and> (list_all (has_band fs) input_files
          \<and> (\<forall>k < length input_files.
                wr ((ds_meta src0)\<lparr>count := length input_files\<rparr>) (1 + k)
                   (first_band fs (input_files ! k)) = Inr (st (1 + k)))
          \<longrightarrow> stack_rasters wr fs input_files
                = Inr \<lparr>o_meta = (ds_meta src0)\<lparr>count := length input_files\<rparr>,
                       o_bands = map (\<lambda>k. Some (st (1 + k))) [0..<length input_files]\<rparr>)"
proof (intro conjI impI)
  let ?h = "height (ds_meta src0)" and ?w = "width (ds_meta src0)" and ?d = "dtype (ds_meta src0)"
  assume a: "list_all (single_band fs ?h ?w ?d) input_files \<and> stores_shaped wr"
  then have single: "list_all (single_band fs ?h ?w ?d) input_files" and wr: "stores_shaped wr"
    by simp_all
  have sb: "has_band fs f \<and> first_band_fits fs (ds_meta src0) f
            \<and> (\<forall>src. fs f = Some src \<longrightarrow> ds_bands src = [first_band fs f])"
    if "single_band fs ?h ?w ?d f" for f
  proof (cases "fs f")
    case None
    with that show ?thesis by (simp add: single_band_def)
  next
    case (Some src)
    with that obtain g where "ds_bands src = [g]" "is_array ?h ?w g" "values_fit ?d g"
      by (cases "ds_bands src") (auto simp: single_band_def)
    with Some show ?thesis by (simp add: has_band_def first_band_def first_band_fits_def)
  qed
  have files: "list_all (has_band fs) input_files"
    using single sb by (auto simp: list_all_iff)
  have fits: "list_all (first_band_fits fs (ds_meta src0)) input_files"
    using single sb by (auto simp: list_all_iff)
  let ?out = "\<lparr>o_meta = (ds_meta src0)\<lparr>count := length input_files\<rparr>,
               o_bands = map (\<lambda>f. Some (first_band fs f)) input_files\<rparr>"
  have "stack_rasters wr fs input_files = Inr ?out"
    using files first fits wr by (rule stack_rasters_first_bands)
  moreover have "\<forall>k < length input_files. \<forall>src. fs (input_files ! k) = Some src
                 \<longrightarrow> map Some (ds_bands src) = [o_bands ?out ! k]"
  proof (intro allI impI)
    fix k src assume k: "k < length input_files" and src: "fs (input_files ! k) = Some src"
    from k single have "single_band fs ?h ?w ?d (input_files ! k)" by (simp add: list_all_length)
    from sb [OF this] src have "ds_bands src = [first_band fs (input_files ! k)]" by blast
    then show "map Some (ds_bands src) = [o_bands ?out ! k]" using k by simp
  qed
  ultimately show "\<exists>out. stack_rasters wr fs input_files = Inr out
                 \<and> o_meta out = (ds_meta src0)\<lparr>count := length input_files\<rparr>
                 \<and> length (o_bands out) = length input_files
                 \<and> (\<forall>k < length input_files. \<forall>src. fs (input_files ! k) = Some src
                       \<longrightarrow> map Some (ds_bands src) = [o_bands out ! k])"
    by simp
next
  assume b: "list_all (has_band fs) input_files
          \<and> (\<forall>k < length input_files.
                wr ((ds_meta src0)\<lparr>count := length input_files\<rparr>) (1 + k)
                   (first_band fs (input_files ! k)) = Inr (st (1 + k)))"
  then have files: "list_all (has_band fs) input_files"
    and w: "\<forall>k < length input_files.
                wr ((ds_meta src0)\<lparr>count := length input_files\<rparr>) (1 + k)
                   (first_band fs (input_files ! k)) = Inr (st (1 + k))"
    by simp_all
  from files first w show "stack_rasters wr fs input_files
                = Inr \<lparr>o_meta = (ds_meta src0)\<lparr>count := length input_files\<rparr>,
                       o_bands = map (\<lambda>k. Some (st (1 + k))) [0..<length input_files]\<rparr>"
    by (rule stack_rasters_stored [where st = st])
qed

lemma tile_ab_single:
  "list_all (single_band [''a.tif'' \<mapsto> tile_a, ''b.tif'' \<mapsto> tile_b]
               (height (ds_meta tile_a)) (width (ds_meta tile_a)) (dtype (ds_meta tile_a)))
     [''a.tif'', ''b.tif'']"
  by (simp add: single_band_def tile_a_def tile_b_def is_array_def values_fit_def
        representable_def is_float_dtype_def)

theorem stack_single_band_in_order_witness:
  "[''a.tif'', ''b.tif''] = ''a.tif'' # [''b.tif'']
   \<and> [''a.tif'' \<mapsto> tile_a, ''b.tif'' \<mapsto> tile_b] ''a.tif'' = Some tile_a
   \<and> list_all (single_band [''a.tif'' \<mapsto> tile_a, ''b.tif'' \<mapsto> tile_b]
                  (height (ds_meta tile_a)) (width (ds_meta tile_a)) (dtype (ds_meta tile_a)))
        [''a.tif'', ''b.tif'']
   \<and> stores_shaped casting_write
   \<and> (\<exists>out. stack_rasters casting_write [''a.tif'' \<mapsto> tile_a, ''b.tif'' \<mapsto> tile_b]
               [''a.tif'', ''b.tif''] = Inr out
          \<and> o_meta out = (ds_meta tile_a)\<lparr>count := 2\<rparr>
          \<and> o_bands out ! 0 = Some [[Fin 1, Fin 2], [Fin 3, Fin 4]]
          \<and> o_bands out ! 1 = Some [[Fin 5, Fin 6], [Fin 7, Fin 8]])"
proof -
  let ?fs = "[''a.tif'' \<mapsto> tile_a, ''b.tif'' \<mapsto> tile_b]"
  have h1: "[''a.tif'', ''b.tif''] = ''a.tif'' # [''b.tif'']" by simp
  have h2: "?fs ''a.tif'' = Some tile_a" by simp
  from stack_single_band_in_order [where fs = ?fs and input_files = "[''a.tif'', ''b.tif'']"
         and ?f0.0 = "''a.tif''" and rest = "[''b.tif'']" and ?src0.0 = tile_a
         and wr = casting_write and st = "\<lambda>i. []", OF h1 h2]
       tile_ab_single stores_shaped_casting_write
  obtain out where
    r: "stack_rasters casting_write ?fs [''a.tif'', ''b.tif''] = Inr out"
    and m: "o_meta out = (ds_meta tile_a)\<lparr>count := length [''a.tif'', ''b.tif'']\<rparr>"
    and b: "\<forall>k < length [''a.tif'', ''b.tif'']. \<forall>src. ?fs ([''a.tif'', ''b.tif''] ! k) = Some src
                 \<longrightarrow> map Some (ds_bands src) = [o_bands out ! k]"
    by blast
  have "map Some (ds_bands tile_a) = [o_bands out ! 0]"
    using b [rule_format, of 0 tile_a] by simp
  then have b0: "o_bands out ! 0 = Some [[Fin 1, Fin 2], [Fin 3, Fin 4]]"
    by (simp add: tile_a_def)
  have "map Some (ds_bands tile_b) = [o_bands out ! 1]"
    using b [rule_format, of 1 tile_b] by simp
  then have b1: "o_bands out ! 1 = Some [[Fin 5, Fin 6], [Fin 7, Fin 8]]"
    by (simp add: tile_b_def)
  show ?thesis
    using h1 h2 tile_ab_single stores_shaped_casting_write r m b0 b1 by simp
qed


lemma stack_mismatch_scaled:
  "shape (first_band [''a.tif'' \<mapsto> tile_a, ''b.tif'' \<mapsto> one_pixel] ''a.tif'') = (2, 2)
   \<and> shape (first_band [''a.tif'' \<mapsto> tile_a, ''b.tif'' \<mapsto> one_pixel] ''b.tif'') = (1, 1)
   \<and> stack_rasters scaling_write [''a.tif'' \<mapsto> tile_a, ''b.tif'' \<mapsto> one_pixel]
         [''a.tif'', ''b.tif'']
       = Inr \<lparr>o_meta = (ds_meta tile_a)\<lparr>count := 2\<rparr>,
              o_bands = [Some [[Fin 1, Fin 2], [Fin 3, Fin 4]],
                         Some [[Fin 9, Fin 9], [Fin 9, Fin 9]]]\<rparr>"
proof -
  let ?fs = "[''a.tif'' \<mapsto> tile_a, ''b.tif'' \<mapsto> one_pixel]"
  let ?m = "(ds_meta tile_a)\<lparr>count := 2\<rparr>"
  have two: "[0..<2] = [0, Suc 0]" by (simp add: upt_rec)
  have fa: "first_band ?fs ''a.tif'' = [[Fin 1, Fin 2], [Fin 3, Fin 4]]"
    and fb: "first_band ?fs ''b.tif'' = [[Fin 9]]"
    by (simp_all add: first_band_def tile_a_def one_pixel_def)
  have rd: "read_layers ?fs 2 [''a.tif'', ''b.tif''] None []
              = Inr (Some ?m, [[[Fin 1, Fin 2], [Fin 3, Fin 4]], [[Fin 9]]])"
    by (simp add: rio_open_def read_band_def tile_a_def one_pixel_def)
  have w1: "scaling_write ?m 1 [[Fin 1, Fin 2], [Fin 3, Fin 4]] = Inr [[Fin 1, Fin 2], [Fin 3, Fin 4]]"
    by (simp add: scaling_write_def scale_to_def tile_a_def nrows_def ncols_def two)
  have w2: "scaling_write ?m (1 + 1) [[Fin 9]] = Inr [[Fin 9, Fin 9], [Fin 9, Fin 9]]"
    by (simp add: scaling_write_def scale_to_def tile_a_def nrows_def ncols_def two)
  have "write_layers scaling_write ?m 1 [[[Fin 1, Fin 2], [Fin 3, Fin 4]], [[Fin 9]]] [None, None]
          = write_layers scaling_write ?m (1 + 1) [[[Fin 9]]]
              ([None, None][1 - 1 := Some [[Fin 1, Fin 2], [Fin 3, Fin 4]]])"
    by (simp only: write_layers.simps w1 sum.case)
  also have "\<dots> = write_layers scaling_write ?m (1 + 1 + 1) []
              (([None, None][1 - 1 := Some [[Fin 1, Fin 2], [Fin 3, Fin 4]]])
                 [1 + 1 - 1 := Some [[Fin 9, Fin 9], [Fin 9, Fin 9]]])"
    by (simp only: write_layers.simps w2 sum.case)
  also have "\<dots> = Inr [Some [[Fin 1, Fin 2], [Fin 3, Fin 4]],
                        Some [[Fin 9, Fin 9], [Fin 9, Fin 9]]]"
    by simp
  finally have wl: "write_layers scaling_write ?m 1 [[[Fin 1, Fin 2], [Fin 3, Fin 4]], [[Fin 9]]]
              [None, None]
            = Inr [Some [[Fin 1, Fin 2], [Fin 3, Fin 4]], Some [[Fin 9, Fin 9], [Fin 9, Fin 9]]]" .
  have len: "length [''a.tif'', ''b.tif''] = 2" by simp
  have rep: "replicate (count ?m) (None :: grid option) = [None, None]"
    by (simp add: numeral_2_eq_2)
  have "stack_rasters scaling_write ?fs [''a.tif'', ''b.tif'']
          = Inr \<lparr>o_meta = ?m,
                 o_bands = [Some [[Fin 1, Fin 2], [Fin 3, Fin 4]],
                            Some [[Fin 9, Fin 9], [Fin 9, Fin 9]]]\<rparr>"
    by (simp only: stack_rasters_def len rd sum.case prod.case option.case rep wl)
  then show ?thesis
    by (simp add: fa fb shape_def nrows_def ncols_def)
qed


lemma cast_uint8_values:
  "cast ''uint8'' (Fin 7) = Fin 7" "cast ''uint8'' (Fin 8) = Fin 8"
  "cast ''uint8'' (Fin 3) = Fin 3" "cast ''uint8'' (Fin 4) = Fin 4"
  "cast ''uint8'' (Fin (11 / 2)) = Fin 5" "cast ''uint8'' (Fin (5 / 2)) = Fin 2"
  by (simp_all add: cast_def is_float_dtype_def int_range_def)

lemma casting_write_uint8_row:
  assumes "1 \<le> idx" "idx \<le> count m" "height m = 1" "width m = 2" "dtype m = ''uint8''"
  shows "casting_write m idx [[a, b]] = Inr [[cast ''uint8'' a, cast ''uint8'' b]]"
proof -
  have "is_array 1 2 [[cast ''uint8'' a, cast ''uint8'' b]]" by (simp add: is_array_def)
  from scale_to_same_shape [OF this] show ?thesis
    using assms by (simp add: casting_write_def nrows_def ncols_def)
qed

lemma stack_dtype_cast:
  "stack_rasters casting_write [''b.tif'' \<mapsto> byte_tile, ''f.tif'' \<mapsto> float_tile]
       [''b.tif'', ''f.tif'']
     = Inr \<lparr>o_meta = (ds_meta byte_tile)\<lparr>count := 2\<rparr>,
            o_bands = [Some [[Fin 7, Fin 8]], Some [[Fin 5, Fin 3]]]\<rparr>"
proof -
  let ?fs = "[''b.tif'' \<mapsto> byte_tile, ''f.tif'' \<mapsto> float_tile]"
  let ?files = "[''b.tif'', ''f.tif'']"
  let ?m = "(ds_meta byte_tile)\<lparr>count := length ?files\<rparr>"
  let ?st = "\<lambda>i. if i = (1::nat) then [[Fin 7, Fin 8]] else [[Fin 5, Fin 3]]"
  have files: "list_all (has_band ?fs) ?files"
    by (simp add: has_band_def byte_tile_def float_tile_def)
  have f0: "?files = ''b.tif'' # [''f.tif'']" by simp
  have s0: "?fs ''b.tif'' = Some byte_tile" by simp
  have m: "height ?m = 1" "width ?m = 2" "dtype ?m = ''uint8''" "count ?m = 2"
    by (simp_all add: byte_tile_def)
  have w: "\<forall>k < length ?files.
             casting_write ?m (1 + k) (first_band ?fs (?files ! k)) = Inr (?st (1 + k))"
  proof (intro allI impI)
    fix k assume "k < length ?files"
    then have "k = 0 \<or> k = 1" by auto
    then show "casting_write ?m (1 + k) (first_band ?fs (?files ! k)) = Inr (?st (1 + k))"
    proof
      assume k: "k = 0"
      have "casting_write ?m 1 [[Fin 7, Fin 8]] = Inr [[cast ''uint8'' (Fin 7), cast ''uint8'' (Fin 8)]]"
        using m by (intro casting_write_uint8_row) simp_all
      then show ?thesis
        unfolding k by (simp add: first_band_def byte_tile_def cast_uint8_values)
    next
      assume k: "k = 1"
      have "casting_write ?m (1 + 1) [[Fin (11 / 2), Fin 3]]
              = Inr [[cast ''uint8'' (Fin (11 / 2)), cast ''uint8'' (Fin 3)]]"
        using m by (intro casting_write_uint8_row) simp_all
      then show ?thesis
        unfolding k by (simp add: first_band_def float_tile_def cast_uint8_values)
    qed
  qed
  from files f0 s0 w have "stack_rasters casting_write ?fs ?files
       = Inr \<lparr>o_meta = ?m, o_bands = map (\<lambda>k. Some (?st (1 + k))) [0..<length ?files]\<rparr>"
    by (rule stack_rasters_stored [where st = ?st])
  moreover have "map (\<lambda>k. Some (?st (1 + k))) [0..<length ?files]
                   = [Some [[Fin 7, Fin 8]], Some [[Fin 5, Fin 3]]]"
    by (simp add: upt_rec)
  ultimately show ?thesis by simp
qed

text \<open>
  The claim as stated fails three times. A 2 by 2 raster stacked with a 1 by 1 raster raises
  nothing with the scaling writer: the second layer is silently scaled to the grid of the
  first. No raster at all raises \<open>TypeError\<close>, not a raster of no band. And two rasters of
  one shape, the first of dtype uint8 and the second of dtype float64 with the values 5.5
  and 3, stack with the casting writer to a second band 5 and 3: not the data of the second
  input.
\<close>

theorem stack_mismatch_counterexample:
  "shape (first_band [''a.tif'' \<mapsto> tile_a, ''b.tif'' \<mapsto> one_pixel] ''a.tif'') = (2, 2)
   \<and> shape (first_band [''a.tif'' \<mapsto> tile_a, ''b.tif'' \<mapsto> one_pixel] ''b.tif'') = (1, 1)
   \<and> stack_rasters scaling_write [''a.tif'' \<mapsto> tile_a, ''b.tif'' \<mapsto> one_pixel]
         [''a.tif'', ''b.tif'']
       = Inr \<lparr>o_meta = (ds_meta tile_a)\<lparr>count := 2\<rparr>,
              o_bands = [Some [[Fin 1, Fin 2], [Fin 3, Fin 4]],
                         Some [[Fin 9, Fin 9], [Fin 9, Fin 9]]]\<rparr>
   \<and> stack_rasters scaling_write [''a.tif'' \<mapsto> tile_a, ''b.tif'' \<mapsto> one_pixel] []
       = Inl TypeError
   \<and> ds_bands byte_tile = [[[Fin 7, Fin 8]]] \<and> ds_bands float_tile = [[[Fin (11 / 2), Fin 3]]]
   \<and> stack_rasters casting_write [''b.tif'' \<mapsto> byte_tile, ''f.tif'' \<mapsto> float_tile]
         [''b.tif'', ''f.tif'']
       = Inr \<lparr>o_meta = (ds_meta byte_tile)\<lparr>count := 2\<rparr>,
              o_bands = [Some [[Fin 7, Fin 8]], Some [[Fin 5, Fin 3]]]\<rparr>"
  using stack_mismatch_scaled stack_dtype_cast
  by (simp add: stack_rasters_empty byte_tile_def float_tile_def)


text \<open>
  Claim C10, as amended. For a non-empty list of files that each open with at least one
  band, whenever the library write returns for every layer, the output of \<open>stack_rasters\<close>
  has exactly one band per input file, and band \<open>k\<close> is what that write stored for band 1
  of input \<open>k\<close>: whatever other bands the input has are in no band of the output. With a
  write that stores an array of the shape and dtype of the dataset as it is, band \<open>k\<close> is
  band 1 of input \<open>k\<close> itself whenever that band has the shape and the dtype of the first
  file.
\<close>

theorem stack_reads_band_one:
  assumes files: "list_all (has_band fs) input_files"
    and first: "input_files = f0 # rest" "fs f0 = Some src0"
    and wr: "\<forall>k < length input_files.
               wr ((ds_meta src0)\<lparr>count := length input_files\<rparr>) (1 + k)
                  (first_band fs (input_files ! k)) = Inr (st (1 + k))"
  shows "\<exists>out. stack_rasters wr fs input_files = Inr out
           \<and> length (o_bands out) = length input_files
           \<and> (\<forall>k < length input_files. \<exists>src band1 others.
                 fs (input_files ! k) = Some src \<and> ds_bands src = band1 # others
                 \<and> wr ((ds_meta src0)\<lparr>count := length input_files\<rparr>) (1 + k) band1
                     = Inr (st (1 + k))
                 \<and> o_bands out ! k = Some (st (1 + k))
                 \<and> (stores_shaped wr \<and> first_band_fits fs (ds_meta src0) (input_files ! k)
                      \<longrightarrow> o_bands out ! k = Some band1))"
proof -
  let ?m = "(ds_meta src0)\<lparr>count := length input_files\<rparr>"
  let ?out = "\<lparr>o_meta = ?m, o_bands = map (\<lambda>k. Some (st (1 + k))) [0..<length input_files]\<rparr>"
  from files first wr have res: "stack_rasters wr fs input_files = Inr ?out"
    by (rule stack_rasters_stored [where st = st])
  have "\<forall>k < length input_files. \<exists>src band1 others.
                 fs (input_files ! k) = Some src \<and> ds_bands src = band1 # others
                 \<and> wr ?m (1 + k) band1 = Inr (st (1 + k))
                 \<and> o_bands ?out ! k = Some (st (1 + k))
                 \<and> (stores_shaped wr \<and> first_band_fits fs (ds_meta src0) (input_files ! k)
                      \<longrightarrow> o_bands ?out ! k = Some band1)"
  proof (intro allI impI)
    fix k assume k: "k < length input_files"
    with files have "has_band fs (input_files ! k)" by (simp add: list_all_length)
    then obtain src band1 others where
      src: "fs (input_files ! k) = Some src" "ds_bands src = band1 # others"
      by (auto simp: has_band_def neq_Nil_conv split: option.splits)
    then have fb: "first_band fs (input_files ! k) = band1"
      by (simp add: first_band_def)
    have w: "wr ?m (1 + k) band1 = Inr (st (1 + k))"
      using wr k fb by auto
    have ob: "o_bands ?out ! k = Some (st (1 + k))" using k by simp
    have eq: "o_bands ?out ! k = Some band1"
      if "stores_shaped wr \<and> first_band_fits fs (ds_meta src0) (input_files ! k)"
    proof -
      from that have "is_array (height ?m) (width ?m) band1 \<and> values_fit (dtype ?m) band1"
        by (simp add: first_band_fits_def fb)
      moreover have "1 \<le> 1 + k \<and> 1 + k \<le> count ?m" using k by simp
      ultimately have "wr ?m (1 + k) band1 = Inr band1"
        using that unfolding stores_shaped_def by simp
      with w have "st (1 + k) = band1" by simp
      with ob show ?thesis by simp
    qed
    show "\<exists>src band1 others.
                 fs (input_files ! k) = Some src \<and> ds_bands src = band1 # others
                 \<and> wr ?m (1 + k) band1 = Inr (st (1 + k))
                 \<and> o_bands ?out ! k = Some (st (1 + k))
                 \<and> (stores_shaped wr \<and> first_band_fits fs (ds_meta src0) (input_files ! k)
                      \<longrightarrow> o_bands ?out ! k = Some band1)"
      using src w ob eq by blast
  qed
  with res show ?thesis by simp
qed

lemma fused_twice_fits:
  "first_band_fits [''fused.tif'' \<mapsto> two_band_stack] (ds_meta two_band_stack) ''fused.tif''"
  by (simp add: first_band_fits_def first_band_def two_band_stack_def is_array_def
        values_fit_def representable_def is_float_dtype_def)

theorem stack_reads_band_one_witness:
  "list_all (has_band [''fused.tif'' \<mapsto> two_band_stack]) [''fused.tif'', ''fused.tif'']
   \<and> [''fused.tif'', ''fused.tif''] = ''fused.tif'' # [''fused.tif'']
   \<and> [''fused.tif'' \<mapsto> two_band_stack] ''fused.tif'' = Some two_band_stack
   \<and> casting_write ((ds_meta two_band_stack)\<lparr>count := 2\<rparr>) 1
         (first_band [''fused.tif'' \<mapsto> two_band_stack] ''fused.tif'') = Inr [[Fin 0, Fin 1]]
   \<and> casting_write ((ds_meta two_band_stack)\<lparr>count := 2\<rparr>) 2
         (first_band [''fused.tif'' \<mapsto> two_band_stack] ''fused.tif'') = Inr [[Fin 0, Fin 1]]
   \<and> ds_bands two_band_stack = [[[Fin 0, Fin 1]], [[Fin 5, Fin 10]]]
   \<and> (\<exists>out. stack_rasters casting_write [''fused.tif'' \<mapsto> two_band_stack]
               [''fused.tif'', ''fused.tif''] = Inr out
          \<and> length (o_bands out) = 2
          \<and> o_bands out ! 0 = Some [[Fin 0, Fin 1]]
          \<and> o_bands out ! 1 = Some [[Fin 0, Fin 1]])"
proof -
  let ?fs = "[''fused.tif'' \<mapsto> two_band_stack]"
  let ?files = "[''fused.tif'', ''fused.tif'']"
  let ?m = "(ds_meta two_band_stack)\<lparr>count := length ?files\<rparr>"
  have h1: "list_all (has_band ?fs) ?files"
    by (simp add: has_band_def two_band_stack_def)
  have h2: "?files = ''fused.tif'' # [''fused.tif'']" by simp
  have h3: "?fs ''fused.tif'' = Some two_band_stack" by simp
  have fb: "first_band ?fs ''fused.tif'' = [[Fin 0, Fin 1]]"
    by (simp add: first_band_def two_band_stack_def)
  have h4: "\<forall>k < length ?files.
              casting_write ?m (1 + k) (first_band ?fs (?files ! k)) = Inr [[Fin 0, Fin 1]]"
  proof (intro allI impI)
    fix k assume k: "k < length ?files"
    then have f: "?files ! k = ''fused.tif''" by (cases k) auto
    have "is_array (height ?m) (width ?m) [[Fin 0, Fin 1]]
          \<and> values_fit (dtype ?m) [[Fin 0, Fin 1]]"
      using fused_twice_fits by (simp add: first_band_fits_def fb)
    moreover have "1 \<le> 1 + k \<and> 1 + k \<le> count ?m" using k by simp
    ultimately have "casting_write ?m (1 + k) [[Fin 0, Fin 1]] = Inr [[Fin 0, Fin 1]]"
      using stores_shaped_casting_write unfolding stores_shaped_def by blast
    then show "casting_write ?m (1 + k) (first_band ?fs (?files ! k)) = Inr [[Fin 0, Fin 1]]"
      by (simp only: f fb)
  qed
  have bs: "ds_bands two_band_stack = [[[Fin 0, Fin 1]], [[Fin 5, Fin 10]]]"
    by (simp add: two_band_stack_def)
  from stack_reads_band_one [where fs = ?fs and input_files = ?files and ?f0.0 = "''fused.tif''"
         and rest = "[''fused.tif'']" and ?src0.0 = two_band_stack and wr = casting_write
         and st = "\<lambda>i. [[Fin 0, Fin 1]]", OF h1 h2 h3 h4]
  obtain out where
    r: "stack_rasters casting_write ?fs ?files = Inr out"
    and l: "length (o_bands out) = length ?files"
    and b: "\<forall>k < length ?files. \<exists>src band1 others.
                 ?fs (?files ! k) = Some src \<and> ds_bands src = band1 # others
                 \<and> casting_write ?m (1 + k) band1 = Inr [[Fin 0, Fin 1]]
                 \<and> o_bands out ! k = Some [[Fin 0, Fin 1]]
                 \<and> (stores_shaped casting_write
                      \<and> first_band_fits ?fs (ds_meta two_band_stack) (?files ! k)
                      \<longrightarrow> o_bands out ! k = Some band1)"
    by blast
  have b0: "o_bands out ! 0 = Some [[Fin 0, Fin 1]]"
    using b [rule_format, of 0] by auto
  have b1: "o_bands out ! 1 = Some [[Fin 0, Fin 1]]"
    using b [rule_format, of 1] by auto
  have cw: "casting_write ((ds_meta two_band_stack)\<lparr>count := 2\<rparr>) idx [[Fin 0, Fin 1]]
              = Inr [[Fin 0, Fin 1]]" if "1 \<le> idx" "idx \<le> 2" for idx
  proof -
    let ?m2 = "(ds_meta two_band_stack)\<lparr>count := 2\<rparr>"
    have "is_array (height ?m2) (width ?m2) [[Fin 0, Fin 1]]
          \<and> values_fit (dtype ?m2) [[Fin 0, Fin 1]]"
      using fused_twice_fits by (simp add: first_band_fits_def fb)
    moreover have "1 \<le> idx \<and> idx \<le> count ?m2" using that by simp
    ultimately show ?thesis
      using stores_shaped_casting_write unfolding stores_shaped_def by blast
  qed
  have w1: "casting_write ((ds_meta two_band_stack)\<lparr>count := 2\<rparr>) 1
              (first_band ?fs ''fused.tif'') = Inr [[Fin 0, Fin 1]]"
    unfolding fb by (rule cw) simp_all
  have w2: "casting_write ((ds_meta two_band_stack)\<lparr>count := 2\<rparr>) 2
              (first_band ?fs ''fused.tif'') = Inr [[Fin 0, Fin 1]]"
    unfolding fb by (rule cw) simp_all
  show ?thesis
    using h1 h2 h3 w1 w2 bs r l b0 b1 by simp
qed

lemma casting_write_float:
  assumes "is_float_dtype (dtype m)"
  shows "casting_write m idx g = scaling_write m idx g"
proof -
  have "map (map (cast (dtype m))) g = g"
    using assms by (simp add: cast_def map_idI)
  then show ?thesis by (simp add: casting_write_def scaling_write_def)
qed

lemma stack_other_shape_scaled:
  "stack_rasters casting_write [''a.tif'' \<mapsto> tile_a, ''fused.tif'' \<mapsto> two_band_stack]
       [''a.tif'', ''fused.tif'']
     = Inr \<lparr>o_meta = (ds_meta tile_a)\<lparr>count := 2\<rparr>,
            o_bands = [Some [[Fin 1, Fin 2], [Fin 3, Fin 4]],
                       Some [[Fin 0, Fin 1], [Fin 0, Fin 1]]]\<rparr>"
proof -
  let ?fs = "[''a.tif'' \<mapsto> tile_a, ''fused.tif'' \<mapsto> two_band_stack]"
  let ?files = "[''a.tif'', ''fused.tif'']"
  let ?m = "(ds_meta tile_a)\<lparr>count := length ?files\<rparr>"
  let ?st = "\<lambda>i. if i = (1::nat) then [[Fin 1, Fin 2], [Fin 3, Fin 4]]
                  else [[Fin 0, Fin 1], [Fin 0, Fin 1]]"
  have two: "[0..<2] = [0, Suc 0]" by (simp add: upt_rec)
  have files: "list_all (has_band ?fs) ?files"
    by (simp add: has_band_def tile_a_def two_band_stack_def)
  have f0: "?files = ''a.tif'' # [''fused.tif'']" by simp
  have s0: "?fs ''a.tif'' = Some tile_a" by simp
  have fl: "is_float_dtype (dtype ?m)" by (simp add: tile_a_def is_float_dtype_def)
  have w: "\<forall>k < length ?files.
             casting_write ?m (1 + k) (first_band ?fs (?files ! k)) = Inr (?st (1 + k))"
  proof (intro allI impI)
    fix k assume "k < length ?files"
    then have "k = 0 \<or> k = 1" by auto
    then show "casting_write ?m (1 + k) (first_band ?fs (?files ! k)) = Inr (?st (1 + k))"
    proof
      assume k: "k = 0"
      have "scaling_write ?m 1 [[Fin 1, Fin 2], [Fin 3, Fin 4]] = Inr [[Fin 1, Fin 2], [Fin 3, Fin 4]]"
        by (intro scaling_write_shaped) (simp_all add: tile_a_def is_array_def)
      then show ?thesis
        unfolding k casting_write_float [OF fl] by (simp add: first_band_def tile_a_def)
    next
      assume k: "k = 1"
      have "scaling_write ?m (1 + 1) [[Fin 0, Fin 1]] = Inr [[Fin 0, Fin 1], [Fin 0, Fin 1]]"
        by (simp add: scaling_write_def scale_to_def tile_a_def nrows_def ncols_def two)
      then show ?thesis
        unfolding k casting_write_float [OF fl] by (simp add: first_band_def two_band_stack_def)
    qed
  qed
  from files f0 s0 w have "stack_rasters casting_write ?fs ?files
       = Inr \<lparr>o_meta = ?m, o_bands = map (\<lambda>k. Some (?st (1 + k))) [0..<length ?files]\<rparr>"
    by (rule stack_rasters_stored [where st = ?st])
  moreover have "map (\<lambda>k. Some (?st (1 + k))) [0..<length ?files]
                   = [Some [[Fin 1, Fin 2], [Fin 3, Fin 4]], Some [[Fin 0, Fin 1], [Fin 0, Fin 1]]]"
    by (simp add: upt_rec)
  ultimately show ?thesis by simp
qed

lemma stack_other_dtype_cast:
  "stack_rasters casting_write [''b.tif'' \<mapsto> byte_tile, ''p.tif'' \<mapsto> float_pair]
       [''b.tif'', ''p.tif'']
     = Inr \<lparr>o_meta = (ds_meta byte_tile)\<lparr>count := 2\<rparr>,
            o_bands = [Some [[Fin 7, Fin 8]], Some [[Fin 2, Fin 4]]]\<rparr>"
proof -
  let ?fs = "[''b.tif'' \<mapsto> byte_tile, ''p.tif'' \<mapsto> float_pair]"
  let ?files = "[''b.tif'', ''p.tif'']"
  let ?m = "(ds_meta byte_tile)\<lparr>count := length ?files\<rparr>"
  let ?st = "\<lambda>i. if i = (1::nat) then [[Fin 7, Fin 8]] else [[Fin 2, Fin 4]]"
  have files: "list_all (has_band ?fs) ?files"
    by (simp add: has_band_def byte_tile_def float_pair_def)
  have f0: "?files = ''b.tif'' # [''p.tif'']" by simp
  have s0: "?fs ''b.tif'' = Some byte_tile" by simp
  have m: "height ?m = 1" "width ?m = 2" "dtype ?m = ''uint8''" "count ?m = 2"
    by (simp_all add: byte_tile_def)
  have w: "\<forall>k < length ?files.
             casting_write ?m (1 + k) (first_band ?fs (?files ! k)) = Inr (?st (1 + k))"
  proof (intro allI impI)
    fix k assume "k < length ?files"
    then have "k = 0 \<or> k = 1" by auto
    then show "casting_write ?m (1 + k) (first_band ?fs (?files ! k)) = Inr (?st (1 + k))"
    proof
      assume k: "k = 0"
      have "casting_write ?m 1 [[Fin 7, Fin 8]] = Inr [[cast ''uint8'' (Fin 7), cast ''uint8'' (Fin 8)]]"
        using m by (intro casting_write_uint8_row) simp_all
      then show ?thesis
        unfolding k by (simp add: first_band_def byte_tile_def cast_uint8_values)
    next
      assume k: "k = 1"
      have "casting_write ?m (1 + 1) [[Fin (5 / 2), Fin 4]]
              = Inr [[cast ''uint8'' (Fin (5 / 2)), cast ''uint8'' (Fin 4)]]"
        using m by (intro casting_write_uint8_row) simp_all
      then show ?thesis
        unfolding k by (simp add: first_band_def float_pair_def cast_uint8_values)
    qed
  qed
  from files f0 s0 w have "stack_rasters casting_write ?fs ?files
       = Inr \<lparr>o_meta = ?m, o_bands = map (\<lambda>k. Some (?st (1 + k))) [0..<length ?files]\<rparr>"
    by (rule stack_rasters_stored [where st = ?st])
  moreover have "map (\<lambda>k. Some (?st (1 + k))) [0..<length ?files]
                   = [Some [[Fin 7, Fin 8]], Some [[Fin 2, Fin 4]]]"
    by (simp add: upt_rec)
  ultimately show ?thesis by simp
qed

text \<open>
  The claim as stated fails three times. The empty list of files raises \<open>TypeError\<close>. A
  band 1 of 1 by 2 pixels stacked after a 2 by 2 raster is stored as 2 by 2 pixels, not as
  it is. And a band 1 of dtype float64 with the values 2.5 and 4 stacked after a raster of
  dtype uint8 is stored as 2 and 4.
\<close>

theorem stack_reads_band_one_counterexample:
  "stack_rasters casting_write [''fused.tif'' \<mapsto> two_band_stack] [] = Inl TypeError
   \<and> first_band [''a.tif'' \<mapsto> tile_a, ''fused.tif'' \<mapsto> two_band_stack] ''fused.tif''
       = [[Fin 0, Fin 1]]
   \<and> stack_rasters casting_write [''a.tif'' \<mapsto> tile_a, ''fused.tif'' \<mapsto> two_band_stack]
         [''a.tif'', ''fused.tif'']
       = Inr \<lparr>o_meta = (ds_meta tile_a)\<lparr>count := 2\<rparr>,
              o_bands = [Some [[Fin 1, Fin 2], [Fin 3, Fin 4]],
                         Some [[Fin 0, Fin 1], [Fin 0, Fin 1]]]\<rparr>
   \<and> first_band [''b.tif'' \<mapsto> byte_tile, ''p.tif'' \<mapsto> float_pair] ''p.tif''
       = [[Fin (5 / 2), Fin 4]]
   \<and> stack_rasters casting_write [''b.tif'' \<mapsto> byte_tile, ''p.tif'' \<mapsto> float_pair]
         [''b.tif'', ''p.tif'']
       = Inr \<lparr>o_meta = (ds_meta byte_tile)\<lparr>count := 2\<rparr>,
              o_bands = [Some [[Fin 7, Fin 8]], Some [[Fin 2, Fin 4]]]\<rparr>"
  using stack_other_shape_scaled stack_other_dtype_cast
  by (simp add: stack_rasters_empty first_band_def two_band_stack_def float_pair_def)

section \<open>Properties of the normalisation\<close>


text \<open>
  Claim C1 does not hold of the code. On a stack of two bands, band 1 with the values 0 and
  1 and band 2 with the values 5 and 10, \<open>normalize_raster\<close> reads band 1 alone, takes
  the minimum 0 and the maximum 1 of that band, writes band 1 back as 0 and 1, and leaves
  band 2 of the output unwritten. With the minimum and maximum of all bands combined, as
  the claim has it, band 1 would be 0 and 1/10 and band 2 would be 1/2 and 1.
\<close>

theorem normalize_reads_band_one_only:
  "normalize_raster scaling_write [''fused_stack.tif'' \<mapsto> two_band_stack] ''fused_stack.tif''
     = Inr \<lparr>o_meta = (ds_meta two_band_stack)\<lparr>dtype := ''float32''\<rparr>,
            o_bands = [Some [[Fin 0, Fin 1]], None]\<rparr>"
proof -
  let ?profile = "(ds_meta two_band_stack)\<lparr>dtype := ''float32''\<rparr>"
  have op: "rio_open [''fused_stack.tif'' \<mapsto> two_band_stack] ''fused_stack.tif''
              = Inr two_band_stack"
    by (simp add: rio_open_def)
  have rd: "read_band two_band_stack 1 = Inr [[Fin 0, Fin 1]]"
    by (simp add: read_band_def two_band_stack_def)
  have mn: "np_min [[Fin 0, Fin 1]] = Inr (Fin 0)"
    by (simp add: np_min_def fmin_def)
  have mx: "np_max [[Fin 0, Fin 1]] = Inr (Fin 1)"
    by (simp add: np_max_def fmax_def)
  have nm: "np_scalar (\<lambda>x. fdiv (fsub x (Fin 0)) (fsub (Fin 1) (Fin 0))) [[Fin 0, Fin 1]]
              = [[Fin 0, Fin 1]]"
    by (simp add: np_scalar_def fsub_def)
  have "is_array (height ?profile) (width ?profile) [[Fin 0, Fin 1]]"
    by (simp add: two_band_stack_def is_array_def)
  moreover have "1 \<le> (1::nat) \<and> 1 \<le> count ?profile"
    by (simp add: two_band_stack_def)
  ultimately have wr: "scaling_write ?profile 1 [[Fin 0, Fin 1]] = Inr [[Fin 0, Fin 1]]"
    using scaling_write_shaped by blast
  have rep: "(replicate (count ?profile) None)[0 := Some [[Fin 0, Fin 1]]]
               = [Some [[Fin 0, Fin 1]], None]"
    by (simp add: two_band_stack_def numeral_2_eq_2)
  show ?thesis
    by (simp only: normalize_raster_def op rd mn mx nm wr rep sum.case Let_def)
qed

text \<open>
  Claim C5 does not hold of the code. On a raster whose pixels are all 5,
  \<open>normalize_raster\<close> returns without raising, but nothing guards the zero span: every
  pixel of the output is 0 / 0, that is \<open>NaN\<close>. The sibling normalisation \<open>calculate_nir\<close>
  adds \<open>1e-6\<close> to the span and gives 0 for every pixel of the same data.
\<close>

theorem normalize_constant_is_nan:
  "normalize_raster scaling_write [''constant.tif'' \<mapsto> constant_raster] ''constant.tif''
     = Inr \<lparr>o_meta = (ds_meta constant_raster)\<lparr>dtype := ''float32''\<rparr>,
            o_bands = [Some [[NaN, NaN], [NaN, NaN]]]\<rparr>"
proof -
  let ?profile = "(ds_meta constant_raster)\<lparr>dtype := ''float32''\<rparr>"
  let ?data = "[[Fin 5, Fin 5], [Fin 5, Fin 5]]"
  have op: "rio_open [''constant.tif'' \<mapsto> constant_raster] ''constant.tif''
              = Inr constant_raster"
    by (simp add: rio_open_def)
  have rd: "read_band constant_raster 1 = Inr ?data"
    by (simp add: read_band_def constant_raster_def)
  have mn: "np_min ?data = Inr (Fin 5)"
    by (simp add: np_min_def fmin_def)
  have mx: "np_max ?data = Inr (Fin 5)"
    by (simp add: np_max_def fmax_def)
  have nm: "np_scalar (\<lambda>x. fdiv (fsub x (Fin 5)) (fsub (Fin 5) (Fin 5))) ?data
              = [[NaN, NaN], [NaN, NaN]]"
    by (simp add: np_scalar_def fsub_def)
  have "is_array (height ?profile) (width ?profile) [[NaN, NaN], [NaN, NaN]]"
    by (simp add: constant_raster_def is_array_def)
  moreover have "1 \<le> (1::nat) \<and> 1 \<le> count ?profile"
    by (simp add: constant_raster_def)
  ultimately have wr: "scaling_write ?profile 1 [[NaN, NaN], [NaN, NaN]]
                         = Inr [[NaN, NaN], [NaN, NaN]]"
    using scaling_write_shaped by blast
  have rep: "(replicate (count ?profile) None)[0 := Some [[NaN, NaN], [NaN, NaN]]]
               = [Some [[NaN, NaN], [NaN, NaN]]]"
    by (simp add: constant_raster_def)
  show ?thesis
    by (simp only: normalize_raster_def op rd mn mx nm wr rep sum.case Let_def)
qed

lemma calculate_nir_constant_is_zero:
  "calculate_nir (init_processor\<lparr>bands := [''B08'' \<mapsto> [[Fin 5, Fin 5], [Fin 5, Fin 5]]]\<rparr>)
     = Inr (init_processor\<lparr>bands := [''B08'' \<mapsto> [[Fin 5, Fin 5], [Fin 5, Fin 5]]],
                             indices := [''NIR'' \<mapsto> [[Fin 0, Fin 0], [Fin 0, Fin 0]]]\<rparr>)"
  by (simp add: calculate_nir_def init_processor_def np_nanmin_def np_nanmax_def fmin_def fmax_def
        np_scalar_def fsub_def eps_def)

end
